theory Spec2Isabelle
  imports Main "HOL-Library.Sublist"
begin

section \<open>The non-routable domain service\<close>

text \<open>
  A shallow embedding of \<^verbatim>\<open>src/background/routability/NonRoutableService.ts\<close>.
  The class instance is a record that every method takes and returns; the clock
  (\<^verbatim>\<open>Date.now()\<close>) is an argument of the methods that read it, and the reads of one
  run of a handler all see that value; a thrown exception is the \<open>Inl\<close> side of a sum;
  the calls that leave the service (the notifier, the tabs API) are appended to a log
  kept in the record.
\<close>

subsection \<open>Collaborators that live outside the class\<close>

datatype error = Error string | TypeError

text \<open>
  The value \<^verbatim>\<open>ipaddr.parse\<close> returns: an IPv4 address (its octets) or an IPv6 address
  (its parts), told apart by \<^verbatim>\<open>kind()\<close>.
\<close>

datatype ipaddr = IPv4 "nat list" | IPv6 "nat list"

definition IPV6 :: string where
  "IPV6 = ''ipv6''"

definition kind :: "ipaddr \<Rightarrow> string" where
  "kind addr = (case addr of IPv4 octets \<Rightarrow> ''ipv4'' | IPv6 parts \<Rightarrow> ''ipv6'')"

type_synonym cidr = "ipaddr \<times> nat"

text \<open>
  The functions and the constant the class imports and whose code is not part of the
  class are parameters of the model:
  \<^item> \<open>getHostname\<close> is \<^verbatim>\<open>getHostname\<close> of \<^verbatim>\<open>common/url-utils\<close>, \<open>None\<close> for \<^verbatim>\<open>null\<close>;
  \<^item> \<open>isIP\<close> is \<^verbatim>\<open>isIP\<close> of the package is-ip;
  \<^item> \<open>ipaddr_parse\<close> and \<open>ipaddr_parseCIDR\<close> are \<^verbatim>\<open>ipaddr.parse\<close> and
    \<^verbatim>\<open>ipaddr.parseCIDR\<close> (which throws on a malformed range); \<open>ipaddr_parse\<close> is only
    ever applied to a string \<open>isIP\<close> has accepted;
  \<^item> \<open>ipaddr_match\<close> is the comparison of the leading bits that \<^verbatim>\<open>IPv4.match\<close> makes
    once it has found its operand to be an IPv4 range (\<open>IPv4_match\<close> below has the
    test that comes before);
  \<^item> \<open>NON_ROUTABLE_CIDR_NETS\<close> is the list of \<^verbatim>\<open>routability/constants\<close>.
\<close>

record env =
  getHostname :: "string \<Rightarrow> string option"
  isIP :: "string \<Rightarrow> bool"
  ipaddr_parse :: "string \<Rightarrow> ipaddr"
  ipaddr_parseCIDR :: "string \<Rightarrow> error + cidr"
  ipaddr_match :: "ipaddr \<Rightarrow> cidr \<Rightarrow> bool"
  NON_ROUTABLE_CIDR_NETS :: "string list"

subsection \<open>Data\<close>

text \<open>\<^verbatim>\<open>type HostnameData = { timeAdded: number, tabId?: number, url?: string }\<close>\<close>

record HostnameData =
  timeAdded :: int
  tabId :: "int option"
  url :: "string option"

text \<open>\<^verbatim>\<open>type HostnameMap = Map<string, HostnameData | string[]>\<close>\<close>

datatype HostnameValue = Data HostnameData | Names "string list"

type_synonym HostnameMap = "string \<rightharpoonup> HostnameValue"

text \<open>
  The fields of the event \<^verbatim>\<open>handleWebRequestErrors\<close> destructures; \<^verbatim>\<open>statusCode\<close> is
  absent from an \<^verbatim>\<open>onErrorOccurred\<close> event and \<^verbatim>\<open>error\<close> from an \<^verbatim>\<open>onHeadersReceived\<close> one.
\<close>

record details =
  details_url :: string
  details_type :: string
  details_tabId :: int
  details_statusCode :: "int option"
  details_error :: "string option"

text \<open>
  What the service does to the outside, in the order it happens: a call of
  \<^verbatim>\<open>addHostname\<close> (logged on entry), a broadcast of \<^verbatim>\<open>NON_ROUTABLE_DOMAIN_ADDED\<close>,
  a call of \<^verbatim>\<open>tabs.update\<close>.
\<close>

datatype effect =
  Call_addHostname string
  | Notify_NON_ROUTABLE_DOMAIN_ADDED string
  | Tabs_update int string

text \<open>
  The state \<^verbatim>\<open>lodash/throttle\<close> keeps for \<^verbatim>\<open>updateStorage\<close>, under the names lodash
  gives it: \<open>lastArgs\<close> holds while a call waits for the trailing edge, \<open>lastCallTime\<close>
  is the time of the last call (\<^verbatim>\<open>undefined\<close> before the first), \<open>lastInvokeTime\<close> the
  time the wrapped function last ran (0 at the start), and \<open>timerId\<close> holds while the
  timer of the wait is set.
\<close>

record throttle =
  lastArgs :: bool
  lastCallTime :: "int option"
  lastInvokeTime :: int
  timerId :: bool

definition throttle_new :: throttle where
  "throttle_new =
     \<lparr> lastArgs = False, lastCallTime = None, lastInvokeTime = 0, timerId = False \<rparr>"

record service =
  nonRoutableList :: "string list"
  parsedCIDRList :: "cidr list"
  webRequestErrorHostnames :: HostnameMap
  nonRoutableHostnames :: HostnameMap
  updateStorage_throttle :: throttle
  storage :: "string \<rightharpoonup> string list"
  effects :: "effect list"

definition NON_ROUTABLE_KEY :: string where
  "NON_ROUTABLE_KEY = ''non-routable.storage.key''"

definition NON_ROUTABLE_MAX_LENGTH :: nat where
  "NON_ROUTABLE_MAX_LENGTH = 1000"

definition CLEAR_CAPACITY :: nat where
  "CLEAR_CAPACITY = 50"

definition STORAGE_UPDATE_TIMEOUT_MS :: int where
  "STORAGE_UPDATE_TIMEOUT_MS = 1000"

definition LOCALHOST :: string where
  "LOCALHOST = ''localhost''"

definition VALUE_TTL_MS :: int where
  "VALUE_TTL_MS = 1000"

subsection \<open>Construction and start\<close>

text \<open>
  \<^verbatim>\<open>NON_ROUTABLE_CIDR_NETS.map((net) => ipaddr.parseCIDR(net))\<close>: the ranges are parsed
  from left to right and the first exception leaves the \<^verbatim>\<open>map\<close>.
\<close>

fun map_parseCIDR :: "(string \<Rightarrow> error + cidr) \<Rightarrow> string list \<Rightarrow> error + cidr list" where
  "map_parseCIDR parseCIDR [] = Inr []"
| "map_parseCIDR parseCIDR (net # nets) =
     (case parseCIDR net of
        Inl e \<Rightarrow> Inl e
      | Inr parsed \<Rightarrow>
          (case map_parseCIDR parseCIDR nets of
             Inl e \<Rightarrow> Inl e
           | Inr rest \<Rightarrow> Inr (parsed # rest)))"

definition constructor :: "env \<Rightarrow> (string \<rightharpoonup> string list) \<Rightarrow> error + service" where
  "constructor env storage0 =
     (case map_parseCIDR (ipaddr_parseCIDR env) (NON_ROUTABLE_CIDR_NETS env) of
        Inl e \<Rightarrow> Inl e
      | Inr parsed \<Rightarrow>
          Inr \<lparr> nonRoutableList = [],
                parsedCIDRList = parsed,
                webRequestErrorHostnames = Map.empty,
                nonRoutableHostnames = Map.empty,
                updateStorage_throttle = throttle_new,
                storage = storage0,
                effects = [] \<rparr>)"

text \<open>\<^verbatim>\<open>init\<close>: the list is what the storage holds under the key, or the empty array.\<close>

definition init :: "service \<Rightarrow> service" where
  "init s =
     s\<lparr> nonRoutableList :=
          (case storage s NON_ROUTABLE_KEY of None \<Rightarrow> [] | Some saved \<Rightarrow> saved) \<rparr>"

subsection \<open>The two pending-event mappings\<close>

text \<open>
  \<^verbatim>\<open>getByHostname\<close>: the value and the mapping without the key. Every value a mapping
  holds is an object or an array, so \<^verbatim>\<open>if (value)\<close> holds whenever \<^verbatim>\<open>has\<close> does.
\<close>

definition getByHostname :: "string \<Rightarrow> HostnameMap \<Rightarrow> HostnameValue option \<times> HostnameMap" where
  "getByHostname hostname hmap =
     (case hmap hostname of
        Some v \<Rightarrow> (Some v, hmap(hostname := None))
      | None \<Rightarrow> (None, hmap))"

text \<open>
  \<^verbatim>\<open>Object.keys(storage)\<close> is the array of the own enumerable string-keyed properties of
  its argument. The argument is a \<^verbatim>\<open>Map\<close>: its entries are kept in the internal slot of
  the object, they are not properties (\<^verbatim>\<open>Object.keys(new Map([['a', 1]]))\<close> is \<^verbatim>\<open>[]\<close>),
  and the class never assigns a property on either mapping. The array is empty whatever
  the mapping holds.
\<close>

definition Object_keys :: "HostnameMap \<Rightarrow> string list" where
  "Object_keys hmap = []"

text \<open>
  \<^verbatim>\<open>value.timeAdded < currentTime - VALUE_TTL_MS\<close>: an array has no \<^verbatim>\<open>timeAdded\<close>, and
  \<^verbatim>\<open>undefined < n\<close> is false.
\<close>

definition is_stale :: "int \<Rightarrow> HostnameValue \<Rightarrow> bool" where
  "is_stale currentTime v =
     (case v of Data d \<Rightarrow> timeAdded d < currentTime - VALUE_TTL_MS | Names ns \<Rightarrow> False)"

text \<open>
  The body of the \<^verbatim>\<open>forEach\<close> of \<^verbatim>\<open>clearStaleValues\<close>, key after key; reading
  \<^verbatim>\<open>timeAdded\<close> of the \<^verbatim>\<open>undefined\<close> that \<^verbatim>\<open>get\<close> returns for a key the mapping does
  not hold throws a TypeError.
\<close>

fun clearStaleValues_forEach :: "int \<Rightarrow> string list \<Rightarrow> HostnameMap \<Rightarrow> error + HostnameMap" where
  "clearStaleValues_forEach currentTime [] hmap = Inr hmap"
| "clearStaleValues_forEach currentTime (key # keys) hmap =
     (case hmap key of
        None \<Rightarrow> Inl TypeError
      | Some v \<Rightarrow>
          (if is_stale currentTime v
           then clearStaleValues_forEach currentTime keys (hmap(key := None))
           else clearStaleValues_forEach currentTime keys hmap))"

definition clearStaleValues :: "int \<Rightarrow> HostnameMap \<Rightarrow> error + HostnameMap" where
  "clearStaleValues currentTime hmap =
     clearStaleValues_forEach currentTime (Object_keys hmap) hmap"

subsection \<open>The list store\<close>

text \<open>
  The loop of \<^verbatim>\<open>updateStorage\<close>:
  \<^verbatim>\<open>while (list.length > NON_ROUTABLE_MAX_LENGTH) list = list.slice(CLEAR_CAPACITY)\<close>.
\<close>

function trim_list :: "string list \<Rightarrow> string list" where
  "trim_list xs =
     (if length xs > NON_ROUTABLE_MAX_LENGTH then trim_list (drop CLEAR_CAPACITY xs) else xs)"
  by pat_completeness auto
termination
  by (relation "measure length")
     (auto simp: NON_ROUTABLE_MAX_LENGTH_def CLEAR_CAPACITY_def)

declare trim_list.simps [simp del]

text \<open>
  One run of the function \<^verbatim>\<open>updateStorage\<close> wraps, as \<^verbatim>\<open>invokeFunc(time)\<close> of lodash
  makes it: the kept call is taken, the time of the run is noted, then the loop and
  \<^verbatim>\<open>storage.set\<close>.
\<close>

definition updateStorage_flush :: "int \<Rightarrow> service \<Rightarrow> service" where
  "updateStorage_flush now s =
     (let trimmed = trim_list (nonRoutableList s)
      in s\<lparr> nonRoutableList := trimmed,
            storage := (storage s)(NON_ROUTABLE_KEY \<mapsto> trimmed),
            updateStorage_throttle :=
              (updateStorage_throttle s)\<lparr> lastArgs := False, lastInvokeTime := now \<rparr> \<rparr>)"

text \<open>
  \<^verbatim>\<open>shouldInvoke(time)\<close> of lodash, with \<^verbatim>\<open>wait\<close> and \<^verbatim>\<open>maxWait\<close> both
  \<^verbatim>\<open>STORAGE_UPDATE_TIMEOUT_MS\<close> as \<^verbatim>\<open>throttle\<close> sets them: there was no call yet, or the
  last call is a full wait old, or the clock went backwards, or the last run is a full
  wait old.
\<close>

definition shouldInvoke :: "int \<Rightarrow> throttle \<Rightarrow> bool" where
  "shouldInvoke time th =
     (case lastCallTime th of
        None \<Rightarrow> True
      | Some lastCall \<Rightarrow>
          time - lastCall \<ge> STORAGE_UPDATE_TIMEOUT_MS
          \<or> time - lastCall < 0
          \<or> time - lastInvokeTime th \<ge> STORAGE_UPDATE_TIMEOUT_MS)"

text \<open>
  A call of the throttled \<^verbatim>\<open>updateStorage\<close> at time \<open>now\<close>, with the options
  \<^verbatim>\<open>throttle\<close> has by default (leading and trailing edge). The call is noted; when
  \<open>shouldInvoke\<close> holds the timer is set (again) and the wrapped function runs at once;
  otherwise the call is kept for the timer, which is set if it was not.
\<close>

definition updateStorage :: "int \<Rightarrow> service \<Rightarrow> service" where
  "updateStorage now s =
     (let isInvoking = shouldInvoke now (updateStorage_throttle s);
          called = (updateStorage_throttle s)
                     \<lparr> lastArgs := True, lastCallTime := Some now, timerId := True \<rparr>;
          s1 = s\<lparr> updateStorage_throttle := called \<rparr>
      in if isInvoking then updateStorage_flush now s1 else s1)"

text \<open>
  \<^verbatim>\<open>timerExpired\<close> of lodash at time \<open>now\<close>: nothing when no timer is set; at the
  trailing edge the timer is cleared and a kept call runs; before it the timer is set
  again for the rest of the wait.
\<close>

definition updateStorage_timer :: "int \<Rightarrow> service \<Rightarrow> service" where
  "updateStorage_timer now s =
     (if \<not> timerId (updateStorage_throttle s) then s
      else if shouldInvoke now (updateStorage_throttle s) then
        (let s1 = s\<lparr> updateStorage_throttle :=
                      (updateStorage_throttle s)\<lparr> timerId := False \<rparr> \<rparr>
         in if lastArgs (updateStorage_throttle s) then updateStorage_flush now s1 else s1)
      else s)"

definition addHostname :: "int \<Rightarrow> string \<Rightarrow> service \<Rightarrow> service" where
  "addHostname now hostname s =
     (let s1 = s\<lparr> effects := effects s @ [Call_addHostname hostname] \<rparr>
      in if hostname \<in> set (nonRoutableList s1) then s1
         else updateStorage now (s1\<lparr> nonRoutableList := nonRoutableList s1 @ [hostname] \<rparr>))"

definition addNewNonRoutableDomain :: "int \<Rightarrow> string \<Rightarrow> service \<Rightarrow> service" where
  "addNewNonRoutableDomain now hostname s =
     (let s1 = addHostname now hostname s
      in s1\<lparr> effects := effects s1 @ [Notify_NON_ROUTABLE_DOMAIN_ADDED hostname] \<rparr>)"

definition getNonRoutableList :: "service \<Rightarrow> string list" where
  "getNonRoutableList s = nonRoutableList s"

subsection \<open>The two event handlers\<close>

text \<open>\<^verbatim>\<open>!hostname\<close>: \<^verbatim>\<open>null\<close> and the empty string are falsy.\<close>

definition falsy_hostname :: "string option \<Rightarrow> bool" where
  "falsy_hostname h = (case h of None \<Rightarrow> True | Some hostname \<Rightarrow> hostname = [])"

text \<open>
  \<^verbatim>\<open>webRequestError && webRequestError.tabId && webRequestError.url\<close>: the tab and the url
  when all three are truthy. A \<^verbatim>\<open>tabId\<close> that is absent or 0 and a \<^verbatim>\<open>url\<close> that is absent
  or empty are falsy; an array has neither field.
\<close>

definition tab_and_url :: "HostnameValue option \<Rightarrow> (int \<times> string) option" where
  "tab_and_url webRequestError =
     (case webRequestError of
        None \<Rightarrow> None
      | Some (Names ns) \<Rightarrow> None
      | Some (Data d) \<Rightarrow>
          (case tabId d of
             None \<Rightarrow> None
           | Some t \<Rightarrow>
               (if t = 0 then None
                else (case url d of
                        None \<Rightarrow> None
                      | Some u \<Rightarrow> if u = [] then None else Some (t, u)))))"

definition handleNonRoutableDomains :: "env \<Rightarrow> int \<Rightarrow> string \<Rightarrow> service \<Rightarrow> error + service" where
  "handleNonRoutableDomains env now nonRoutableDomain s =
     (if nonRoutableDomain = [] then Inr s
      else if falsy_hostname (getHostname env nonRoutableDomain) then Inr s
      else
        (let hostname = the (getHostname env nonRoutableDomain);
             (webRequestError, remaining) = getByHostname hostname (webRequestErrorHostnames s);
             s1 = s\<lparr> webRequestErrorHostnames := remaining \<rparr>;
             s2 = (case tab_and_url webRequestError of
                     Some (t, u) \<Rightarrow>
                       (let s' = addNewNonRoutableDomain now hostname s1
                        in s'\<lparr> effects := effects s' @ [Tabs_update t u] \<rparr>)
                   | None \<Rightarrow>
                       s1\<lparr> nonRoutableHostnames :=
                             (nonRoutableHostnames s1)
                               (hostname \<mapsto> Data \<lparr> timeAdded = now, tabId = None, url = None \<rparr>) \<rparr>)
         in (case clearStaleValues now (nonRoutableHostnames s2) of
               Inl e \<Rightarrow> Inl e
             | Inr swept \<Rightarrow> Inr (s2\<lparr> nonRoutableHostnames := swept \<rparr>))))"

definition MAIN_FRAME :: string where
  "MAIN_FRAME = ''main_frame''"

definition ERROR :: string where
  "ERROR = ''net::ERR_TUNNEL_CONNECTION_FAILED''"

definition STATUS_CODE :: int where
  "STATUS_CODE = 502"

text \<open>
  \<^verbatim>\<open>(error === ERROR || statusCode === STATUS_CODE) && type === MAIN_FRAME\<close>
\<close>

definition is_main_frame_error :: "details \<Rightarrow> bool" where
  "is_main_frame_error d =
     ((details_error d = Some ERROR \<or> details_statusCode d = Some STATUS_CODE)
      \<and> details_type d = MAIN_FRAME)"

definition handleWebRequestErrors :: "env \<Rightarrow> int \<Rightarrow> details \<Rightarrow> service \<Rightarrow> error + service" where
  "handleWebRequestErrors env now d s =
     (if is_main_frame_error d then
        (if falsy_hostname (getHostname env (details_url d)) then Inr s
         else
           (let hostname = the (getHostname env (details_url d));
                (result, remaining) = getByHostname hostname (nonRoutableHostnames s);
                s1 = s\<lparr> nonRoutableHostnames := remaining \<rparr>;
                s2 = (case result of
                        Some v \<Rightarrow>
                          (let s' = addNewNonRoutableDomain now hostname s1
                           in s'\<lparr> effects := effects s' @ [Tabs_update (details_tabId d) (details_url d)] \<rparr>)
                      | None \<Rightarrow>
                          s1\<lparr> webRequestErrorHostnames :=
                                (webRequestErrorHostnames s1)
                                  (hostname \<mapsto> Data \<lparr> timeAdded = now,
                                                      tabId = Some (details_tabId d),
                                                      url = Some (details_url d) \<rparr>) \<rparr>)
            in (case clearStaleValues now (webRequestErrorHostnames s2) of
                  Inl e \<Rightarrow> Inl e
                | Inr swept \<Rightarrow> Inr (s2\<lparr> webRequestErrorHostnames := swept \<rparr>))))
      else Inr s)"

subsection \<open>The classifier\<close>

text \<open>
  \<^verbatim>\<open>(<IPv4>addr).match(<[IPv4, number]>parsedCIDR)\<close>. The casts check nothing:
  \<^verbatim>\<open>IPv4.match\<close> throws when the \<^verbatim>\<open>kind()\<close> of the range it is given is not
  \<^verbatim>\<open>'ipv4'\<close>, and compares the leading bits otherwise.
\<close>

definition is_IPv4_range :: "cidr \<Rightarrow> bool" where
  "is_IPv4_range parsedCIDR = (kind (fst parsedCIDR) = ''ipv4'')"

definition IPv4_match :: "env \<Rightarrow> ipaddr \<Rightarrow> cidr \<Rightarrow> error + bool" where
  "IPv4_match env addr parsedCIDR =
     (if \<not> is_IPv4_range parsedCIDR
      then Inl (Error ''ipaddr: cannot match ipv4 address with non-ipv4 one'')
      else Inr (ipaddr_match env addr parsedCIDR))"

text \<open>
  \<^verbatim>\<open>parsedCIDRList.some(...)\<close>: the ranges are tried from left to right, the first one
  that matches ends the search, and an exception of the callback leaves it.
\<close>

fun some_match :: "env \<Rightarrow> ipaddr \<Rightarrow> cidr list \<Rightarrow> error + bool" where
  "some_match env addr [] = Inr False"
| "some_match env addr (parsedCIDR # rest) =
     (case IPv4_match env addr parsedCIDR of
        Inl e \<Rightarrow> Inl e
      | Inr matched \<Rightarrow> if matched then Inr True else some_match env addr rest)"

text \<open>
  \<^verbatim>\<open>isUrlRoutable\<close>: the answer, or the exception that leaves the method, with the
  instance it was called on beside it.
\<close>

definition isUrlRoutable :: "env \<Rightarrow> string \<Rightarrow> service \<Rightarrow> (error + bool) \<times> service" where
  "isUrlRoutable env u s =
     (if falsy_hostname (getHostname env u) then (Inr True, s)
      else
        (let hostname = the (getHostname env u)
         in if hostname = LOCALHOST \<or> hostname \<in> set (nonRoutableList s) then (Inr False, s)
            else if \<not> isIP env hostname then (Inr True, s)
            else
              (let addr = ipaddr_parse env hostname
               in if kind addr = IPV6 then (Inr True, s)
                  else (case some_match env addr (parsedCIDRList s) of
                          Inl e \<Rightarrow> (Inl e, s)
                        | Inr found \<Rightarrow> (Inr (\<not> found), s)))))"

subsection \<open>The event loop\<close>

text \<open>
  The calls the runtime makes on the service, each with the time the clock shows while
  it runs: the notifier delivering \<^verbatim>\<open>NON_ROUTABLE_DOMAIN_FOUND\<close>, a \<^verbatim>\<open>webRequest\<close>
  listener firing, a direct \<^verbatim>\<open>addHostname\<close>, and the timer of the throttle. The loop is
  single-threaded: a call runs to its end before the next one starts.
\<close>

datatype call =
  NonRoutableDomainFound int string
  | WebRequestError int details
  | AddHostname int string
  | ThrottleTimer int

fun deliver :: "env \<Rightarrow> call \<Rightarrow> service \<Rightarrow> error + service" where
  "deliver env (NonRoutableDomainFound now nonRoutableDomain) s =
     handleNonRoutableDomains env now nonRoutableDomain s"
| "deliver env (WebRequestError now d) s = handleWebRequestErrors env now d s"
| "deliver env (AddHostname now hostname) s = Inr (addHostname now hostname s)"
| "deliver env (ThrottleTimer now) s = Inr (updateStorage_timer now s)"

fun run :: "env \<Rightarrow> call list \<Rightarrow> service \<Rightarrow> error + service" where
  "run env [] s = Inr s"
| "run env (c # cs) s =
     (case deliver env c s of Inl e \<Rightarrow> Inl e | Inr s' \<Rightarrow> run env cs s')"

text \<open>The hostnames of the direct \<^verbatim>\<open>addHostname\<close> calls of a sequence, in order.\<close>

fun added_hostnames :: "call list \<Rightarrow> string list" where
  "added_hostnames [] = []"
| "added_hostnames (AddHostname now hostname # cs) = hostname # added_hostnames cs"
| "added_hostnames (c # cs) = added_hostnames cs"

fun is_list_call :: "call \<Rightarrow> bool" where
  "is_list_call (AddHostname now hostname) = True"
| "is_list_call (ThrottleTimer now) = True"
| "is_list_call c = False"

subsection \<open>An instance of the parameters\<close>

text \<open>
  The closed examples below need the parameters at concrete values. The hostname table
  agrees with URL parsing on the strings the examples use; the address functions know
  three literals and three ranges, and the match compares the leading bits of two IPv4
  addresses.
\<close>

definition example_getHostname :: "string \<Rightarrow> string option" where
  "example_getHostname =
     map_of [(''http://blocked.test/'', ''blocked.test''),
             (''blocked.test'', ''blocked.test''),
             (''http://other.test/'', ''other.test''),
             (''other.test'', ''other.test''),
             (''http://localhost/'', ''localhost''),
             (''http://127.0.0.1/'', ''127.0.0.1''),
             (''http://8.8.8.8/'', ''8.8.8.8''),
             (''http://[::1]/'', ''::1'')]"

definition example_isIP :: "string \<Rightarrow> bool" where
  "example_isIP hostname = (hostname \<in> set [''127.0.0.1'', ''8.8.8.8'', ''::1''])"

definition example_parse :: "string \<Rightarrow> ipaddr" where
  "example_parse hostname =
     (if hostname = ''127.0.0.1'' then IPv4 [127, 0, 0, 1]
      else if hostname = ''8.8.8.8'' then IPv4 [8, 8, 8, 8]
      else IPv6 [0, 0, 0, 0, 0, 0, 0, 1])"

definition example_parseCIDR :: "string \<Rightarrow> error + cidr" where
  "example_parseCIDR net =
     (if net = ''10.0.0.0/8'' then Inr (IPv4 [10, 0, 0, 0], 8)
      else if net = ''127.0.0.0/8'' then Inr (IPv4 [127, 0, 0, 0], 8)
      else if net = ''fc00::/7'' then Inr (IPv6 [64512, 0, 0, 0, 0, 0, 0, 0], 7)
      else Inl (Error ''ipaddr: string is not formatted like an IPv4 CIDR range''))"

definition example_number :: "nat list \<Rightarrow> nat" where
  "example_number octets = foldl (\<lambda>acc octet. acc * 256 + octet) 0 octets"

definition example_match :: "ipaddr \<Rightarrow> cidr \<Rightarrow> bool" where
  "example_match addr parsedCIDR =
     (case (addr, parsedCIDR) of
        (IPv4 a, (IPv4 b, bits)) \<Rightarrow>
          example_number a div 2 ^ (32 - bits) = example_number b div 2 ^ (32 - bits)
      | _ \<Rightarrow> False)"

definition example_env :: env where
  "example_env =
     \<lparr> getHostname = example_getHostname,
       isIP = example_isIP,
       ipaddr_parse = example_parse,
       ipaddr_parseCIDR = example_parseCIDR,
       ipaddr_match = example_match,
       NON_ROUTABLE_CIDR_NETS = [''10.0.0.0/8'', ''127.0.0.0/8''] \<rparr>"

text \<open>
  The instance the constructor builds from \<open>example_env\<close> over a storage that holds
  \<open>saved\<close> under the key, after \<open>init\<close>.
\<close>

definition example_service :: "string list \<Rightarrow> service" where
  "example_service saved =
     \<lparr> nonRoutableList = saved,
       parsedCIDRList = [(IPv4 [10, 0, 0, 0], 8), (IPv4 [127, 0, 0, 0], 8)],
       webRequestErrorHostnames = Map.empty,
       nonRoutableHostnames = Map.empty,
       updateStorage_throttle = throttle_new,
       storage = [NON_ROUTABLE_KEY \<mapsto> saved],
       effects = [] \<rparr>"

text \<open>A gateway failure of the top-level navigation of tab \<open>tab\<close> to \<open>u\<close>.\<close>

definition example_failure :: "int \<Rightarrow> string \<Rightarrow> details" where
  "example_failure tab u =
     \<lparr> details_url = u, details_type = ''main_frame'', details_tabId = tab,
       details_statusCode = Some 502, details_error = None \<rparr>"

text \<open>The hostnames \<^verbatim>\<open>a\<close>, \<^verbatim>\<open>aa\<close>, \<^verbatim>\<open>aaa\<close>, ...: \<open>n\<close> of them, all different.\<close>

definition example_hosts :: "nat \<Rightarrow> string list" where
  "example_hosts n = map (\<lambda>i. replicate (Suc i) CHR ''a'') [0..<n]"

section \<open>Properties\<close>

subsection \<open>Auxiliary facts\<close>

lemma clearStaleValues_keeps [simp]: "clearStaleValues currentTime hmap = Inr hmap"
  by (simp add: clearStaleValues_def Object_keys_def)

lemma getByHostname_None [simp]:
  "hmap hostname = None \<Longrightarrow> getByHostname hostname hmap = (None, hmap)"
  by (simp add: getByHostname_def)

lemma getByHostname_Some [simp]:
  "hmap hostname = Some v \<Longrightarrow> getByHostname hostname hmap = (Some v, hmap(hostname := None))"
  by (simp add: getByHostname_def)

lemma example_service_constructed:
  "map_sum id init (constructor example_env [NON_ROUTABLE_KEY \<mapsto> saved]) = Inr (example_service saved)"
  by (simp add: constructor_def example_env_def example_parseCIDR_def init_def example_service_def)

lemma map_parseCIDR_Inl:
  "net \<in> set nets \<Longrightarrow> parseCIDR net = Inl e \<Longrightarrow> \<exists>e'. map_parseCIDR parseCIDR nets = Inl e'"
  by (induction nets) (auto split: sum.splits)

lemma map_parseCIDR_Inr:
  "map_parseCIDR parseCIDR nets = Inr parsed \<Longrightarrow> map parseCIDR nets = map Inr parsed"
  by (induction nets arbitrary: parsed) (auto split: sum.splits)

lemma trim_list_short: "length xs \<le> NON_ROUTABLE_MAX_LENGTH \<Longrightarrow> trim_list xs = xs"
  by (subst trim_list.simps) simp

lemma trim_list_length: "length (trim_list xs) \<le> NON_ROUTABLE_MAX_LENGTH"
proof (induction xs rule: trim_list.induct)
  case (1 xs)
  show ?case
  proof (cases "length xs > NON_ROUTABLE_MAX_LENGTH")
    case True
    with "1" show ?thesis by (subst trim_list.simps) simp
  next
    case False
    then show ?thesis by (subst trim_list.simps) simp
  qed
qed

lemma trim_list_drop:
  "\<exists>k. trim_list xs = drop (CLEAR_CAPACITY * k) xs
       \<and> (0 < k \<longrightarrow> NON_ROUTABLE_MAX_LENGTH - CLEAR_CAPACITY < length (trim_list xs))"
proof (induction xs rule: trim_list.induct)
  case (1 xs)
  show ?case
  proof (cases "length xs > NON_ROUTABLE_MAX_LENGTH")
    case True
    with "1" obtain k where k: "trim_list (drop CLEAR_CAPACITY xs) = drop (CLEAR_CAPACITY * k) (drop CLEAR_CAPACITY xs)"
      "0 < k \<longrightarrow> NON_ROUTABLE_MAX_LENGTH - CLEAR_CAPACITY < length (trim_list (drop CLEAR_CAPACITY xs))"
      by blast
    have eq: "trim_list xs = trim_list (drop CLEAR_CAPACITY xs)"
      using True by (subst trim_list.simps) simp
    have "trim_list xs = drop (CLEAR_CAPACITY * Suc k) xs"
      using k(1) eq by (simp add: add.commute)
    moreover have "NON_ROUTABLE_MAX_LENGTH - CLEAR_CAPACITY < length (trim_list xs)"
    proof (cases "0 < k")
      case True
      with k(2) eq show ?thesis by simp
    next
      case False
      then have "trim_list xs = drop CLEAR_CAPACITY xs" using k(1) eq by simp
      then show ?thesis using True
        by (simp add: NON_ROUTABLE_MAX_LENGTH_def CLEAR_CAPACITY_def)
    qed
    ultimately show ?thesis by blast
  next
    case False
    then have "trim_list xs = drop (CLEAR_CAPACITY * 0) xs" by (subst trim_list.simps) simp
    then show ?thesis by blast
  qed
qed

lemma trim_list_distinct: "distinct xs \<Longrightarrow> distinct (trim_list xs)"
  using trim_list_drop [of xs] by auto

lemma trim_list_snoc: "x \<in> set (trim_list (xs @ [x]))"
proof -
  obtain k where k: "trim_list (xs @ [x]) = drop (CLEAR_CAPACITY * k) (xs @ [x])"
    "0 < k \<longrightarrow> NON_ROUTABLE_MAX_LENGTH - CLEAR_CAPACITY < length (trim_list (xs @ [x]))"
    using trim_list_drop by blast
  have "CLEAR_CAPACITY * k \<le> length xs"
  proof (cases "0 < k")
    case True
    with k have "0 < length (drop (CLEAR_CAPACITY * k) (xs @ [x]))" by simp
    then show ?thesis by auto
  next
    case False
    then show ?thesis by simp
  qed
  then show ?thesis using k(1) by simp
qed

lemma updateStorage_flush_fields [simp]:
  "nonRoutableList (updateStorage_flush now s) = trim_list (nonRoutableList s)"
  "effects (updateStorage_flush now s) = effects s"
  "webRequestErrorHostnames (updateStorage_flush now s) = webRequestErrorHostnames s"
  "nonRoutableHostnames (updateStorage_flush now s) = nonRoutableHostnames s"
  "storage (updateStorage_flush now s) NON_ROUTABLE_KEY = Some (trim_list (nonRoutableList s))"
  "lastArgs (updateStorage_throttle (updateStorage_flush now s)) = False"
  by (simp_all add: updateStorage_flush_def Let_def)

lemma updateStorage_cases:
  "(nonRoutableList (updateStorage now s) = nonRoutableList s
      \<and> lastArgs (updateStorage_throttle (updateStorage now s)))
   \<or> (nonRoutableList (updateStorage now s) = trim_list (nonRoutableList s)
      \<and> \<not> lastArgs (updateStorage_throttle (updateStorage now s)))"
  by (simp add: updateStorage_def Let_def)

lemma updateStorage_timer_cases:
  "(nonRoutableList (updateStorage_timer now s) = nonRoutableList s
      \<and> lastArgs (updateStorage_throttle (updateStorage_timer now s))
          = lastArgs (updateStorage_throttle s))
   \<or> (nonRoutableList (updateStorage_timer now s) = trim_list (nonRoutableList s)
      \<and> \<not> lastArgs (updateStorage_throttle (updateStorage_timer now s)))"
  by (simp add: updateStorage_timer_def Let_def)

lemma effects_updateStorage [simp]: "effects (updateStorage now s) = effects s"
  by (simp add: updateStorage_def Let_def)

lemma maps_updateStorage [simp]:
  "webRequestErrorHostnames (updateStorage now s) = webRequestErrorHostnames s"
  "nonRoutableHostnames (updateStorage now s) = nonRoutableHostnames s"
  by (simp_all add: updateStorage_def Let_def)

lemma effects_addHostname [simp]:
  "effects (addHostname now hostname s) = effects s @ [Call_addHostname hostname]"
  by (simp add: addHostname_def Let_def)

lemma effects_addNewNonRoutableDomain [simp]:
  "effects (addNewNonRoutableDomain now hostname s)
     = effects s @ [Call_addHostname hostname, Notify_NON_ROUTABLE_DOMAIN_ADDED hostname]"
  by (simp add: addNewNonRoutableDomain_def Let_def)

lemma addHostname_listed:
  "hostname \<in> set (nonRoutableList s) \<Longrightarrow>
     addHostname now hostname s = s\<lparr> effects := effects s @ [Call_addHostname hostname] \<rparr>"
  by (simp add: addHostname_def Let_def)

lemma addHostname_new:
  "hostname \<notin> set (nonRoutableList s) \<Longrightarrow>
     addHostname now hostname s
       = updateStorage now (s\<lparr> effects := effects s @ [Call_addHostname hostname],
                                 nonRoutableList := nonRoutableList s @ [hostname] \<rparr>)"
  by (simp add: addHostname_def Let_def)

lemma addHostname_lists: "hostname \<in> set (nonRoutableList (addHostname now hostname s))"
proof (cases "hostname \<in> set (nonRoutableList s)")
  case True
  then show ?thesis by (simp add: addHostname_listed)
next
  case False
  then show ?thesis
    using updateStorage_cases
      [of now "s\<lparr> effects := effects s @ [Call_addHostname hostname],
                 nonRoutableList := nonRoutableList s @ [hostname] \<rparr>"]
    by (auto simp: addHostname_new trim_list_snoc)
qed

lemma addHostname_distinct:
  assumes "distinct (nonRoutableList s)"
  shows "distinct (nonRoutableList (addHostname now hostname s))"
proof (cases "hostname \<in> set (nonRoutableList s)")
  case True
  with assms show ?thesis by (simp add: addHostname_listed)
next
  case False
  with assms show ?thesis
    using updateStorage_cases
      [of now "s\<lparr> effects := effects s @ [Call_addHostname hostname],
                 nonRoutableList := nonRoutableList s @ [hostname] \<rparr>"]
    by (auto simp: addHostname_new intro!: trim_list_distinct)
qed

lemma count_list_distinct: "distinct xs \<Longrightarrow> x \<in> set xs \<Longrightarrow> count_list xs x = 1"
  by (induction xs) auto

lemma maps_addHostname [simp]:
  "webRequestErrorHostnames (addHostname now hostname s) = webRequestErrorHostnames s"
  "nonRoutableHostnames (addHostname now hostname s) = nonRoutableHostnames s"
  by (simp_all add: addHostname_def Let_def)

lemma maps_addNewNonRoutableDomain [simp]:
  "webRequestErrorHostnames (addNewNonRoutableDomain now hostname s) = webRequestErrorHostnames s"
  "nonRoutableHostnames (addNewNonRoutableDomain now hostname s) = nonRoutableHostnames s"
  by (simp_all add: addNewNonRoutableDomain_def Let_def)

lemma nonRoutableList_addNewNonRoutableDomain [simp]:
  "nonRoutableList (addNewNonRoutableDomain now hostname s)
     = nonRoutableList (addHostname now hostname s)"
  by (simp add: addNewNonRoutableDomain_def Let_def)

lemma throttle_addNewNonRoutableDomain [simp]:
  "updateStorage_throttle (addNewNonRoutableDomain now hostname s)
     = updateStorage_throttle (addHostname now hostname s)"
  by (simp add: addNewNonRoutableDomain_def Let_def)

lemma getByHostname_eq: "getByHostname hostname hmap = (hmap hostname, hmap(hostname := None))"
  by (cases "hmap hostname") (simp_all add: getByHostname_def fun_upd_idem)

lemma falsy_hostname_iff:
  "\<not> falsy_hostname h \<longleftrightarrow> (\<exists>hostname. h = Some hostname \<and> hostname \<noteq> [])"
  by (cases h) (simp_all add: falsy_hostname_def)

lemma handleNonRoutableDomains_ignored:
  "nonRoutableDomain = [] \<or> falsy_hostname (getHostname env nonRoutableDomain)
   \<Longrightarrow> handleNonRoutableDomains env now nonRoutableDomain s = Inr s"
  by (auto simp: handleNonRoutableDomains_def)

lemma handleNonRoutableDomains_commit:
  assumes "nonRoutableDomain \<noteq> []" "getHostname env nonRoutableDomain = Some hostname"
    "hostname \<noteq> []" "tab_and_url (webRequestErrorHostnames s hostname) = Some (t, u)"
  shows "handleNonRoutableDomains env now nonRoutableDomain s
     = Inr ((addNewNonRoutableDomain now hostname
              (s\<lparr> webRequestErrorHostnames := (webRequestErrorHostnames s)(hostname := None) \<rparr>))
            \<lparr> effects := effects s @ [Call_addHostname hostname,
                   Notify_NON_ROUTABLE_DOMAIN_ADDED hostname, Tabs_update t u] \<rparr>)"
  using assms
  by (simp add: handleNonRoutableDomains_def falsy_hostname_def getByHostname_eq Let_def)

lemma handleNonRoutableDomains_pending:
  assumes "nonRoutableDomain \<noteq> []" "getHostname env nonRoutableDomain = Some hostname"
    "hostname \<noteq> []" "tab_and_url (webRequestErrorHostnames s hostname) = None"
  shows "handleNonRoutableDomains env now nonRoutableDomain s
     = Inr (s\<lparr> webRequestErrorHostnames := (webRequestErrorHostnames s)(hostname := None),
               nonRoutableHostnames := (nonRoutableHostnames s)
                 (hostname \<mapsto> Data \<lparr> timeAdded = now, tabId = None, url = None \<rparr>) \<rparr>)"
  using assms
  by (simp add: handleNonRoutableDomains_def falsy_hostname_def getByHostname_eq Let_def)

lemma handleWebRequestErrors_ignored:
  "\<not> is_main_frame_error d \<or> falsy_hostname (getHostname env (details_url d))
   \<Longrightarrow> handleWebRequestErrors env now d s = Inr s"
  by (auto simp: handleWebRequestErrors_def)

lemma handleWebRequestErrors_commit:
  assumes "is_main_frame_error d" "getHostname env (details_url d) = Some hostname"
    "hostname \<noteq> []" "nonRoutableHostnames s hostname = Some v"
  shows "handleWebRequestErrors env now d s
     = Inr ((addNewNonRoutableDomain now hostname
              (s\<lparr> nonRoutableHostnames := (nonRoutableHostnames s)(hostname := None) \<rparr>))
            \<lparr> effects := effects s @ [Call_addHostname hostname,
                   Notify_NON_ROUTABLE_DOMAIN_ADDED hostname,
                   Tabs_update (details_tabId d) (details_url d)] \<rparr>)"
  using assms
  by (simp add: handleWebRequestErrors_def falsy_hostname_def getByHostname_eq Let_def)

lemma handleWebRequestErrors_pending:
  assumes "is_main_frame_error d" "getHostname env (details_url d) = Some hostname"
    "hostname \<noteq> []" "nonRoutableHostnames s hostname = None"
  shows "handleWebRequestErrors env now d s
     = Inr (s\<lparr> webRequestErrorHostnames := (webRequestErrorHostnames s)
                 (hostname \<mapsto> Data \<lparr> timeAdded = now, tabId = Some (details_tabId d),
                                     url = Some (details_url d) \<rparr>) \<rparr>)"
  using assms
  by (simp add: handleWebRequestErrors_def falsy_hostname_def getByHostname_eq Let_def
        fun_upd_idem)

lemma handleNonRoutableDomains_list:
  assumes "handleNonRoutableDomains env now nonRoutableDomain s = Inr s'"
  shows "(nonRoutableList s' = nonRoutableList s
          \<and> updateStorage_throttle s' = updateStorage_throttle s)
     \<or> (\<exists>hostname s1. nonRoutableList s1 = nonRoutableList s
          \<and> updateStorage_throttle s1 = updateStorage_throttle s
          \<and> nonRoutableList s' = nonRoutableList (addHostname now hostname s1)
          \<and> updateStorage_throttle s' = updateStorage_throttle (addHostname now hostname s1))"
proof (cases "nonRoutableDomain = [] \<or> falsy_hostname (getHostname env nonRoutableDomain)")
  case True
  then have "s' = s" using assms by (simp add: handleNonRoutableDomains_ignored)
  then show ?thesis by simp
next
  case False
  then obtain hostname where h: "nonRoutableDomain \<noteq> []"
    "getHostname env nonRoutableDomain = Some hostname" "hostname \<noteq> []"
    using falsy_hostname_iff by blast
  show ?thesis
  proof (cases "tab_and_url (webRequestErrorHostnames s hostname)")
    case None
    from handleNonRoutableDomains_pending [OF h None, of now] assms
    have "nonRoutableList s' = nonRoutableList s
          \<and> updateStorage_throttle s' = updateStorage_throttle s"
      by auto
    then show ?thesis by simp
  next
    case (Some tu)
    let ?s1 = "s\<lparr> webRequestErrorHostnames := (webRequestErrorHostnames s)(hostname := None) \<rparr>"
    obtain t u where "tu = (t, u)" by (cases tu)
    with Some handleNonRoutableDomains_commit [OF h, of s t u now] assms
    have "nonRoutableList s' = nonRoutableList (addHostname now hostname ?s1)
          \<and> updateStorage_throttle s' = updateStorage_throttle (addHostname now hostname ?s1)"
      by auto
    moreover have "nonRoutableList ?s1 = nonRoutableList s
          \<and> updateStorage_throttle ?s1 = updateStorage_throttle s" by simp
    ultimately show ?thesis by blast
  qed
qed

lemma handleWebRequestErrors_list:
  assumes "handleWebRequestErrors env now d s = Inr s'"
  shows "(nonRoutableList s' = nonRoutableList s
          \<and> updateStorage_throttle s' = updateStorage_throttle s)
     \<or> (\<exists>hostname s1. nonRoutableList s1 = nonRoutableList s
          \<and> updateStorage_throttle s1 = updateStorage_throttle s
          \<and> nonRoutableList s' = nonRoutableList (addHostname now hostname s1)
          \<and> updateStorage_throttle s' = updateStorage_throttle (addHostname now hostname s1))"
proof (cases "\<not> is_main_frame_error d \<or> falsy_hostname (getHostname env (details_url d))")
  case True
  then have "s' = s" using assms by (simp add: handleWebRequestErrors_ignored)
  then show ?thesis by simp
next
  case False
  then obtain hostname where h: "is_main_frame_error d"
    "getHostname env (details_url d) = Some hostname" "hostname \<noteq> []"
    using falsy_hostname_iff by blast
  show ?thesis
  proof (cases "nonRoutableHostnames s hostname")
    case None
    from handleWebRequestErrors_pending [OF h None, of now] assms
    have "nonRoutableList s' = nonRoutableList s
          \<and> updateStorage_throttle s' = updateStorage_throttle s"
      by auto
    then show ?thesis by simp
  next
    case (Some v)
    let ?s1 = "s\<lparr> nonRoutableHostnames := (nonRoutableHostnames s)(hostname := None) \<rparr>"
    from handleWebRequestErrors_commit [OF h Some, of now] assms
    have "nonRoutableList s' = nonRoutableList (addHostname now hostname ?s1)
          \<and> updateStorage_throttle s' = updateStorage_throttle (addHostname now hostname ?s1)"
      by auto
    moreover have "nonRoutableList ?s1 = nonRoutableList s
          \<and> updateStorage_throttle ?s1 = updateStorage_throttle s" by simp
    ultimately show ?thesis by blast
  qed
qed

lemma length_example_hosts [simp]: "length (example_hosts n) = n"
  by (simp add: example_hosts_def)

lemma distinct_example_hosts [simp]: "distinct (example_hosts n)"
proof -
  have "inj_on (\<lambda>i. replicate (Suc i) CHR ''a'') (set [0..<n])"
  proof (rule inj_onI)
    fix i j
    assume "replicate (Suc i) CHR ''a'' = replicate (Suc j) CHR ''a''"
    then have "length (replicate (Suc i) CHR ''a'') = length (replicate (Suc j) CHR ''a'')"
      by (rule arg_cong)
    then show "i = j" by simp
  qed
  then show ?thesis by (simp add: example_hosts_def distinct_map)
qed

lemma example_hosts_letters: "hostname \<in> set (example_hosts n) \<Longrightarrow> set hostname = {CHR ''a''}"
  by (auto simp: example_hosts_def)

lemma blocked_not_example [simp]: "''blocked.test'' \<notin> set (example_hosts n)"
  using example_hosts_letters [of "''blocked.test''" n] by auto

lemma other_not_example [simp]: "''other.test'' \<notin> set (example_hosts n)"
  using example_hosts_letters [of "''other.test''" n] by auto

lemma added_hostnames_map [simp]: "added_hostnames (map (AddHostname now) hs) = hs"
  by (induction hs) simp_all

lemma filter_drop_distinct:
  assumes "distinct xs"
  shows "filter (\<lambda>x. x \<in> set (drop k xs)) xs = drop k xs"
proof -
  have "distinct (take k xs @ drop k xs)" using assms by simp
  then have disj: "set (take k xs) \<inter> set (drop k xs) = {}" by (simp only: distinct_append)
  have a: "filter (\<lambda>x. x \<in> set (drop k xs)) (take k xs) = []"
    using disj by (auto simp: filter_empty_conv)
  have b: "filter (\<lambda>x. x \<in> set (drop k xs)) (drop k xs) = drop k xs"
    by simp
  have "filter (\<lambda>x. x \<in> set (drop k xs)) xs
      = filter (\<lambda>x. x \<in> set (drop k xs)) (take k xs @ drop k xs)"
    by (simp only: append_take_drop_id)
  also have "\<dots> = drop k xs"
    by (simp only: filter_append a b append_Nil)
  finally show ?thesis .
qed

lemma filter_in_drop: "filter (\<lambda>x. x \<in> set xs) (drop k xs) = drop k xs"
  by (auto simp: filter_id_conv dest: in_set_dropD)

lemma order_kept_drop:
  assumes "distinct xs" and "ys = drop k xs"
  shows "filter (\<lambda>x. x \<in> set ys) xs = filter (\<lambda>x. x \<in> set xs) ys"
  unfolding assms(2) by (simp only: filter_drop_distinct [OF assms(1)] filter_in_drop)

lemma order_kept_snoc:
  assumes "distinct xs" and "h \<notin> set xs" and "ys = drop k (xs @ [h])"
  shows "filter (\<lambda>x. x \<in> set ys) xs = filter (\<lambda>x. x \<in> set xs) ys"
proof (cases "k \<le> length xs")
  case True
  then have ys: "ys = drop k xs @ [h]" using assms(3) by simp
  have "filter (\<lambda>x. x \<in> set ys) xs = filter (\<lambda>x. x \<in> set (drop k xs)) xs"
  proof (rule filter_cong [OF refl])
    fix x assume "x \<in> set xs"
    then have "x \<noteq> h" using assms(2) by blast
    then show "(x \<in> set ys) = (x \<in> set (drop k xs))" by (simp add: ys)
  qed
  also have "\<dots> = drop k xs" by (rule filter_drop_distinct [OF assms(1)])
  finally have l: "filter (\<lambda>x. x \<in> set ys) xs = drop k xs" .
  have "filter (\<lambda>x. x \<in> set xs) ys
      = filter (\<lambda>x. x \<in> set xs) (drop k xs) @ filter (\<lambda>x. x \<in> set xs) [h]"
    by (simp only: ys filter_append)
  also have "\<dots> = drop k xs" using assms(2) by (simp add: filter_in_drop)
  finally have r: "filter (\<lambda>x. x \<in> set xs) ys = drop k xs" .
  show ?thesis by (simp only: l r)
next
  case False
  then have "ys = []" using assms(3) by simp
  then show ?thesis by simp
qed

lemma updateStorage_step:
  assumes "distinct (nonRoutableList s)"
  shows "distinct (nonRoutableList (updateStorage now s))
     \<and> (lastArgs (updateStorage_throttle (updateStorage now s))
        \<or> length (nonRoutableList (updateStorage now s)) \<le> NON_ROUTABLE_MAX_LENGTH)
     \<and> (\<exists>k. nonRoutableList (updateStorage now s) = drop k (nonRoutableList s))"
proof -
  obtain j where j: "trim_list (nonRoutableList s) = drop j (nonRoutableList s)"
    using trim_list_drop by blast
  have z: "nonRoutableList s = drop 0 (nonRoutableList s)" by simp
  from updateStorage_cases [of now s] show ?thesis
  proof
    assume a: "nonRoutableList (updateStorage now s) = nonRoutableList s
      \<and> lastArgs (updateStorage_throttle (updateStorage now s))"
    then show ?thesis using assms z by metis
  next
    assume a: "nonRoutableList (updateStorage now s) = trim_list (nonRoutableList s)
      \<and> \<not> lastArgs (updateStorage_throttle (updateStorage now s))"
    have "distinct (trim_list (nonRoutableList s))" using assms by (rule trim_list_distinct)
    moreover have "length (trim_list (nonRoutableList s)) \<le> NON_ROUTABLE_MAX_LENGTH"
      by (rule trim_list_length)
    ultimately show ?thesis using a j by metis
  qed
qed

lemma addHostname_step:
  assumes "distinct (nonRoutableList s)"
    and "lastArgs (updateStorage_throttle s)
         \<or> length (nonRoutableList s) \<le> NON_ROUTABLE_MAX_LENGTH"
  shows "distinct (nonRoutableList (addHostname now hostname s))
     \<and> (lastArgs (updateStorage_throttle (addHostname now hostname s))
        \<or> length (nonRoutableList (addHostname now hostname s)) \<le> NON_ROUTABLE_MAX_LENGTH)
     \<and> ((\<exists>k. nonRoutableList (addHostname now hostname s) = drop k (nonRoutableList s))
        \<or> (\<exists>k h. h \<notin> set (nonRoutableList s)
              \<and> nonRoutableList (addHostname now hostname s)
                  = drop k (nonRoutableList s @ [h])))"
proof (cases "hostname \<in> set (nonRoutableList s)")
  case True
  then have a: "addHostname now hostname s
      = s\<lparr> effects := effects s @ [Call_addHostname hostname] \<rparr>"
    by (rule addHostname_listed)
  have e: "nonRoutableList (addHostname now hostname s) = drop 0 (nonRoutableList s)"
    by (simp add: a)
  have d: "distinct (nonRoutableList (addHostname now hostname s))"
    using assms(1) by (simp add: a)
  have p: "lastArgs (updateStorage_throttle (addHostname now hostname s))
        \<or> length (nonRoutableList (addHostname now hostname s)) \<le> NON_ROUTABLE_MAX_LENGTH"
    using assms(2) by (simp add: a)
  show ?thesis using d p e by blast
next
  case False
  let ?s1 = "s\<lparr> effects := effects s @ [Call_addHostname hostname],
                nonRoutableList := nonRoutableList s @ [hostname] \<rparr>"
  have eq: "addHostname now hostname s = updateStorage now ?s1"
    using False by (rule addHostname_new)
  have "distinct (nonRoutableList ?s1)" using False assms(1) by simp
  from updateStorage_step [OF this, of now] obtain k where
    d: "distinct (nonRoutableList (updateStorage now ?s1))"
    and p: "lastArgs (updateStorage_throttle (updateStorage now ?s1))
        \<or> length (nonRoutableList (updateStorage now ?s1)) \<le> NON_ROUTABLE_MAX_LENGTH"
    and e: "nonRoutableList (updateStorage now ?s1) = drop k (nonRoutableList ?s1)"
    by blast
  have "nonRoutableList (updateStorage now ?s1) = drop k (nonRoutableList s @ [hostname])"
    using e by simp
  then show ?thesis using d p False unfolding eq by blast
qed

lemma updateStorage_timer_step:
  assumes "distinct (nonRoutableList s)"
    and "lastArgs (updateStorage_throttle s)
         \<or> length (nonRoutableList s) \<le> NON_ROUTABLE_MAX_LENGTH"
  shows "distinct (nonRoutableList (updateStorage_timer now s))
     \<and> (lastArgs (updateStorage_throttle (updateStorage_timer now s))
        \<or> length (nonRoutableList (updateStorage_timer now s)) \<le> NON_ROUTABLE_MAX_LENGTH)
     \<and> (\<exists>k. nonRoutableList (updateStorage_timer now s) = drop k (nonRoutableList s))"
proof -
  obtain j where j: "trim_list (nonRoutableList s) = drop j (nonRoutableList s)"
    using trim_list_drop by blast
  have z: "nonRoutableList s = drop 0 (nonRoutableList s)" by simp
  from updateStorage_timer_cases [of now s] show ?thesis
  proof
    assume a: "nonRoutableList (updateStorage_timer now s) = nonRoutableList s
      \<and> lastArgs (updateStorage_throttle (updateStorage_timer now s))
          = lastArgs (updateStorage_throttle s)"
    then show ?thesis using assms z by metis
  next
    assume a: "nonRoutableList (updateStorage_timer now s) = trim_list (nonRoutableList s)
      \<and> \<not> lastArgs (updateStorage_throttle (updateStorage_timer now s))"
    have "distinct (trim_list (nonRoutableList s))" using assms(1) by (rule trim_list_distinct)
    moreover have "length (trim_list (nonRoutableList s)) \<le> NON_ROUTABLE_MAX_LENGTH"
      by (rule trim_list_length)
    ultimately show ?thesis using a j by metis
  qed
qed

lemma deliver_step:
  assumes "distinct (nonRoutableList s)"
    and "lastArgs (updateStorage_throttle s)
         \<or> length (nonRoutableList s) \<le> NON_ROUTABLE_MAX_LENGTH"
    and "deliver env c s = Inr s'"
  shows "distinct (nonRoutableList s')
     \<and> (lastArgs (updateStorage_throttle s')
        \<or> length (nonRoutableList s') \<le> NON_ROUTABLE_MAX_LENGTH)
     \<and> ((\<exists>k. nonRoutableList s' = drop k (nonRoutableList s))
        \<or> (\<exists>k h. h \<notin> set (nonRoutableList s)
              \<and> nonRoutableList s' = drop k (nonRoutableList s @ [h])))"
proof -
  have unchanged: "nonRoutableList s' = nonRoutableList s
          \<and> updateStorage_throttle s' = updateStorage_throttle s \<Longrightarrow> ?thesis"
  proof -
    assume a: "nonRoutableList s' = nonRoutableList s
          \<and> updateStorage_throttle s' = updateStorage_throttle s"
    have "nonRoutableList s' = drop 0 (nonRoutableList s)" using a by simp
    then show ?thesis using a assms(1,2) by metis
  qed
  have added: "\<exists>hostname s1. nonRoutableList s1 = nonRoutableList s
          \<and> updateStorage_throttle s1 = updateStorage_throttle s
          \<and> nonRoutableList s' = nonRoutableList (addHostname now hostname s1)
          \<and> updateStorage_throttle s' = updateStorage_throttle (addHostname now hostname s1)
       \<Longrightarrow> ?thesis" for now
  proof -
    assume "\<exists>hostname s1. nonRoutableList s1 = nonRoutableList s
          \<and> updateStorage_throttle s1 = updateStorage_throttle s
          \<and> nonRoutableList s' = nonRoutableList (addHostname now hostname s1)
          \<and> updateStorage_throttle s' = updateStorage_throttle (addHostname now hostname s1)"
    then obtain hostname s1 where s1: "nonRoutableList s1 = nonRoutableList s"
      "updateStorage_throttle s1 = updateStorage_throttle s"
      "nonRoutableList s' = nonRoutableList (addHostname now hostname s1)"
      "updateStorage_throttle s' = updateStorage_throttle (addHostname now hostname s1)"
      by blast
    have "distinct (nonRoutableList s1)" using assms(1) s1(1) by simp
    moreover have "lastArgs (updateStorage_throttle s1)
         \<or> length (nonRoutableList s1) \<le> NON_ROUTABLE_MAX_LENGTH"
      using assms(2) s1(1,2) by simp
    ultimately have "distinct (nonRoutableList (addHostname now hostname s1))
     \<and> (lastArgs (updateStorage_throttle (addHostname now hostname s1))
        \<or> length (nonRoutableList (addHostname now hostname s1)) \<le> NON_ROUTABLE_MAX_LENGTH)
     \<and> ((\<exists>k. nonRoutableList (addHostname now hostname s1) = drop k (nonRoutableList s1))
        \<or> (\<exists>k h. h \<notin> set (nonRoutableList s1)
              \<and> nonRoutableList (addHostname now hostname s1)
                  = drop k (nonRoutableList s1 @ [h])))"
      by (rule addHostname_step)
    then show ?thesis unfolding s1(3) [symmetric] s1(4) [symmetric] s1(1) .
  qed
  show ?thesis
  proof (cases c)
    case (NonRoutableDomainFound now nonRoutableDomain)
    then have "handleNonRoutableDomains env now nonRoutableDomain s = Inr s'"
      using assms(3) by simp
    from handleNonRoutableDomains_list [OF this] show ?thesis
    proof
      assume "nonRoutableList s' = nonRoutableList s
          \<and> updateStorage_throttle s' = updateStorage_throttle s"
      then show ?thesis by (rule unchanged)
    next
      assume "\<exists>hostname s1. nonRoutableList s1 = nonRoutableList s
          \<and> updateStorage_throttle s1 = updateStorage_throttle s
          \<and> nonRoutableList s' = nonRoutableList (addHostname now hostname s1)
          \<and> updateStorage_throttle s' = updateStorage_throttle (addHostname now hostname s1)"
      then show ?thesis by (rule added)
    qed
  next
    case (WebRequestError now d)
    then have "handleWebRequestErrors env now d s = Inr s'"
      using assms(3) by simp
    from handleWebRequestErrors_list [OF this] show ?thesis
    proof
      assume "nonRoutableList s' = nonRoutableList s
          \<and> updateStorage_throttle s' = updateStorage_throttle s"
      then show ?thesis by (rule unchanged)
    next
      assume "\<exists>hostname s1. nonRoutableList s1 = nonRoutableList s
          \<and> updateStorage_throttle s1 = updateStorage_throttle s
          \<and> nonRoutableList s' = nonRoutableList (addHostname now hostname s1)
          \<and> updateStorage_throttle s' = updateStorage_throttle (addHostname now hostname s1)"
      then show ?thesis by (rule added)
    qed
  next
    case (AddHostname now hostname)
    then have eq: "s' = addHostname now hostname s" using assms(3) by simp
    show ?thesis unfolding eq by (rule addHostname_step [OF assms(1,2)])
  next
    case (ThrottleTimer now)
    then have eq: "s' = updateStorage_timer now s" using assms(3) by simp
    note st = updateStorage_timer_step [OF assms(1,2), of now]
    show ?thesis unfolding eq
    proof (intro conjI)
      show "distinct (nonRoutableList (updateStorage_timer now s))"
        by (rule st [THEN conjunct1])
      show "lastArgs (updateStorage_throttle (updateStorage_timer now s))
        \<or> length (nonRoutableList (updateStorage_timer now s)) \<le> NON_ROUTABLE_MAX_LENGTH"
        by (rule st [THEN conjunct2, THEN conjunct1])
      show "(\<exists>k. nonRoutableList (updateStorage_timer now s) = drop k (nonRoutableList s))
        \<or> (\<exists>k h. h \<notin> set (nonRoutableList s)
              \<and> nonRoutableList (updateStorage_timer now s)
                  = drop k (nonRoutableList s @ [h]))"
        by (rule disjI1) (rule st [THEN conjunct2, THEN conjunct2])
    qed
  qed
qed

lemma run_invariant:
  assumes "distinct (nonRoutableList s)"
    and "lastArgs (updateStorage_throttle s)
         \<or> length (nonRoutableList s) \<le> NON_ROUTABLE_MAX_LENGTH"
    and "run env cs s = Inr s'"
  shows "distinct (nonRoutableList s')
     \<and> (lastArgs (updateStorage_throttle s')
        \<or> length (nonRoutableList s') \<le> NON_ROUTABLE_MAX_LENGTH)"
  using assms
proof (induction cs arbitrary: s)
  case Nil
  then show ?case by simp
next
  case (Cons c cs)
  then obtain s1 where s1: "deliver env c s = Inr s1" "run env cs s1 = Inr s'"
    by (auto split: sum.splits)
  note st = deliver_step [OF Cons.prems(1,2) s1(1)]
  show ?case
    by (rule Cons.IH [OF st [THEN conjunct1] st [THEN conjunct2, THEN conjunct1] s1(2)])
qed

lemma trim_chunks:
  assumes "xs = drop (CLEAR_CAPACITY * k) hs"
    and "0 < k \<longrightarrow> NON_ROUTABLE_MAX_LENGTH - CLEAR_CAPACITY < length xs"
  shows "\<exists>k'. trim_list xs = drop (CLEAR_CAPACITY * k') hs
     \<and> (0 < k' \<longrightarrow> NON_ROUTABLE_MAX_LENGTH - CLEAR_CAPACITY < length (trim_list xs))"
proof -
  obtain j where j: "trim_list xs = drop (CLEAR_CAPACITY * j) xs"
    "0 < j \<longrightarrow> NON_ROUTABLE_MAX_LENGTH - CLEAR_CAPACITY < length (trim_list xs)"
    using trim_list_drop by blast
  have "trim_list xs = drop (CLEAR_CAPACITY * (k + j)) hs"
    using j(1) assms(1) by (simp add: add_mult_distrib2 add.commute)
  moreover have "0 < k + j \<longrightarrow> NON_ROUTABLE_MAX_LENGTH - CLEAR_CAPACITY < length (trim_list xs)"
  proof (cases "0 < j")
    case True
    then show ?thesis using j(2) by simp
  next
    case False
    then have "trim_list xs = xs" using j(1) by simp
    then show ?thesis using False assms(2) by simp
  qed
  ultimately show ?thesis by blast
qed

lemma flush_chunks:
  assumes "nonRoutableList s = drop (CLEAR_CAPACITY * k) hs"
    and "0 < k \<longrightarrow> NON_ROUTABLE_MAX_LENGTH - CLEAR_CAPACITY < length (nonRoutableList s)"
  shows "\<exists>k'. nonRoutableList (updateStorage_flush now s) = drop (CLEAR_CAPACITY * k') hs
     \<and> (0 < k' \<longrightarrow> NON_ROUTABLE_MAX_LENGTH - CLEAR_CAPACITY
                       < length (nonRoutableList (updateStorage_flush now s)))"
  using trim_chunks [OF assms] by simp

lemma updateStorage_chunks:
  assumes "nonRoutableList s = drop (CLEAR_CAPACITY * k) hs"
    and "0 < k \<longrightarrow> NON_ROUTABLE_MAX_LENGTH - CLEAR_CAPACITY < length (nonRoutableList s)"
  shows "\<exists>k'. nonRoutableList (updateStorage now s) = drop (CLEAR_CAPACITY * k') hs
     \<and> (0 < k' \<longrightarrow> NON_ROUTABLE_MAX_LENGTH - CLEAR_CAPACITY
                       < length (nonRoutableList (updateStorage now s)))"
proof -
  from updateStorage_cases [of now s]
  have "nonRoutableList (updateStorage now s) = nonRoutableList s
      \<or> nonRoutableList (updateStorage now s) = trim_list (nonRoutableList s)"
    by blast
  then show ?thesis
  proof
    assume a: "nonRoutableList (updateStorage now s) = nonRoutableList s"
    show ?thesis unfolding a using assms by (intro exI [of _ k] conjI)
  next
    assume a: "nonRoutableList (updateStorage now s) = trim_list (nonRoutableList s)"
    show ?thesis unfolding a by (rule trim_chunks [OF assms])
  qed
qed

lemma addHostname_chunks:
  assumes "nonRoutableList s = drop (CLEAR_CAPACITY * k) hs"
    and "0 < k \<longrightarrow> NON_ROUTABLE_MAX_LENGTH - CLEAR_CAPACITY < length (nonRoutableList s)"
    and "hostname \<notin> set hs"
  shows "\<exists>k'. nonRoutableList (addHostname now hostname s)
               = drop (CLEAR_CAPACITY * k') (hs @ [hostname])
     \<and> (0 < k' \<longrightarrow> NON_ROUTABLE_MAX_LENGTH - CLEAR_CAPACITY
                       < length (nonRoutableList (addHostname now hostname s)))"
proof -
  let ?s1 = "s\<lparr> effects := effects s @ [Call_addHostname hostname],
                nonRoutableList := nonRoutableList s @ [hostname] \<rparr>"
  have "hostname \<notin> set (nonRoutableList s)"
    using assms(1,3) by (auto dest: in_set_dropD)
  then have eq: "addHostname now hostname s = updateStorage now ?s1"
    by (rule addHostname_new)
  have fits: "CLEAR_CAPACITY * k \<le> length hs"
  proof (cases "0 < k")
    case True
    then have "0 < length (drop (CLEAR_CAPACITY * k) hs)" using assms(1,2) by simp
    then show ?thesis by auto
  next
    case False
    then show ?thesis by simp
  qed
  have a: "nonRoutableList ?s1 = drop (CLEAR_CAPACITY * k) (hs @ [hostname])"
    using assms(1) fits by simp
  have b: "0 < k \<longrightarrow> NON_ROUTABLE_MAX_LENGTH - CLEAR_CAPACITY < length (nonRoutableList ?s1)"
    using assms(2) by auto
  show ?thesis unfolding eq by (rule updateStorage_chunks [OF a b])
qed

lemma updateStorage_timer_chunks:
  assumes "nonRoutableList s = drop (CLEAR_CAPACITY * k) hs"
    and "0 < k \<longrightarrow> NON_ROUTABLE_MAX_LENGTH - CLEAR_CAPACITY < length (nonRoutableList s)"
  shows "\<exists>k'. nonRoutableList (updateStorage_timer now s) = drop (CLEAR_CAPACITY * k') hs
     \<and> (0 < k' \<longrightarrow> NON_ROUTABLE_MAX_LENGTH - CLEAR_CAPACITY
                       < length (nonRoutableList (updateStorage_timer now s)))"
proof -
  from updateStorage_timer_cases [of now s]
  have "nonRoutableList (updateStorage_timer now s) = nonRoutableList s
      \<or> nonRoutableList (updateStorage_timer now s) = trim_list (nonRoutableList s)"
    by blast
  then show ?thesis
  proof
    assume a: "nonRoutableList (updateStorage_timer now s) = nonRoutableList s"
    show ?thesis unfolding a using assms by (intro exI [of _ k] conjI)
  next
    assume a: "nonRoutableList (updateStorage_timer now s) = trim_list (nonRoutableList s)"
    show ?thesis unfolding a by (rule trim_chunks [OF assms])
  qed
qed

lemma run_chunks:
  assumes "\<forall>c \<in> set cs. is_list_call c"
    and "distinct (hs @ added_hostnames cs)"
    and "nonRoutableList s = drop (CLEAR_CAPACITY * k) hs"
    and "0 < k \<longrightarrow> NON_ROUTABLE_MAX_LENGTH - CLEAR_CAPACITY < length (nonRoutableList s)"
  shows "\<exists>s' k'. run env cs s = Inr s'
     \<and> nonRoutableList s' = drop (CLEAR_CAPACITY * k') (hs @ added_hostnames cs)
     \<and> (0 < k' \<longrightarrow> NON_ROUTABLE_MAX_LENGTH - CLEAR_CAPACITY < length (nonRoutableList s'))"
  using assms
proof (induction cs arbitrary: s k hs)
  case Nil
  then show ?case by auto
next
  case (Cons c cs)
  show ?case
  proof (cases c)
    case (AddHostname now hostname)
    have new: "hostname \<notin> set hs" using Cons.prems(2) AddHostname by simp
    from addHostname_chunks [OF Cons.prems(3,4) new, of now] obtain k1 where
      k1: "nonRoutableList (addHostname now hostname s)
             = drop (CLEAR_CAPACITY * k1) (hs @ [hostname])"
      "0 < k1 \<longrightarrow> NON_ROUTABLE_MAX_LENGTH - CLEAR_CAPACITY
                       < length (nonRoutableList (addHostname now hostname s))"
      by blast
    have calls: "\<forall>c \<in> set cs. is_list_call c" using Cons.prems(1) by simp
    have d: "distinct ((hs @ [hostname]) @ added_hostnames cs)"
      using Cons.prems(2) AddHostname by simp
    from Cons.IH [OF calls d k1] show ?thesis using AddHostname by simp
  next
    case (ThrottleTimer now)
    from updateStorage_timer_chunks [OF Cons.prems(3,4), of now] obtain k1 where
      k1: "nonRoutableList (updateStorage_timer now s) = drop (CLEAR_CAPACITY * k1) hs"
      "0 < k1 \<longrightarrow> NON_ROUTABLE_MAX_LENGTH - CLEAR_CAPACITY
                       < length (nonRoutableList (updateStorage_timer now s))"
      by blast
    have calls: "\<forall>c \<in> set cs. is_list_call c" using Cons.prems(1) by simp
    have d: "distinct (hs @ added_hostnames cs)"
      using Cons.prems(2) ThrottleTimer by simp
    from Cons.IH [OF calls d k1] show ?thesis using ThrottleTimer by simp
  next
    case (NonRoutableDomainFound now nonRoutableDomain)
    then show ?thesis using Cons.prems(1) by simp
  next
    case (WebRequestError now d)
    then show ?thesis using Cons.prems(1) by simp
  qed
qed

lemma some_match_IPv4:
  "list_all is_IPv4_range ranges \<Longrightarrow>
     some_match env addr ranges = Inr (\<exists>parsedCIDR \<in> set ranges. ipaddr_match env addr parsedCIDR)"
  by (induction ranges) (auto simp: IPv4_match_def)

subsection \<open>The correlation of the two events\<close>

text \<open>
  C1 says that a transport failure and a report for the same hostname, inside the TTL
  window and in either order, make the handler that runs second call \<open>addHostname\<close>
  once and fire one \<^verbatim>\<open>tabs.update\<close>. The code does not do so for a failure on the tab 0
  that comes first: \<open>handleNonRoutableDomains\<close> finds the entry of the failure, tests
  its \<^verbatim>\<open>tabId\<close> for truth, and commits nothing. In the other order the same two events
  are committed by \<open>handleWebRequestErrors\<close>, which reloads the tab 0.
\<close>

theorem tab_zero_pair_committed_in_one_order_only:
  "map_sum id effects
     (run example_env
        [WebRequestError 0 (example_failure 0 ''http://blocked.test/''),
         NonRoutableDomainFound 300 ''blocked.test'']
        (example_service []))
   = Inr []
   \<and> map_sum id effects
     (run example_env
        [NonRoutableDomainFound 0 ''blocked.test'',
         WebRequestError 300 (example_failure 0 ''http://blocked.test/'')]
        (example_service []))
   = Inr [Call_addHostname ''blocked.test'',
          Notify_NON_ROUTABLE_DOMAIN_ADDED ''blocked.test'',
          Tabs_update 0 ''http://blocked.test/'']"
  by (simp add: handleNonRoutableDomains_def handleWebRequestErrors_def example_env_def
        example_getHostname_def example_service_def example_failure_def falsy_hostname_def
        tab_and_url_def is_main_frame_error_def MAIN_FRAME_def STATUS_CODE_def ERROR_def
        addNewNonRoutableDomain_def addHostname_def updateStorage_def updateStorage_flush_def
        shouldInvoke_def throttle_new_def STORAGE_UPDATE_TIMEOUT_MS_def trim_list_short
        NON_ROUTABLE_MAX_LENGTH_def Let_def)

subsection \<open>The staleness sweep\<close>

text \<open>
  C2 says that every insertion into a pending-event mapping sweeps out the entries older
  than the time-to-live of 1000 ms, so that a lone report is gone once an unrelated
  hostname is inserted after the window, with no commit and no retry for it. The code
  does not do so: \<open>clearStaleValues\<close> walks \<open>Object_keys\<close> of a Map, which is empty.
  A report for \<^verbatim>\<open>blocked.test\<close> at time 0 is still pending after a report for
  \<^verbatim>\<open>other.test\<close> at time 5000, and a failure for \<^verbatim>\<open>blocked.test\<close> at time 9000 is
  matched with it: the hostname is committed and tab 5 is reloaded.
\<close>

theorem stale_report_survives_insertion:
  "map_sum id (\<lambda>s. (nonRoutableHostnames s ''blocked.test'', effects s))
     (run example_env
        [NonRoutableDomainFound 0 ''blocked.test'',
         NonRoutableDomainFound 5000 ''other.test'']
        (example_service []))
   = Inr (Some (Data \<lparr> timeAdded = 0, tabId = None, url = None \<rparr>), [])
   \<and> map_sum id effects
     (run example_env
        [NonRoutableDomainFound 0 ''blocked.test'',
         NonRoutableDomainFound 5000 ''other.test'',
         WebRequestError 9000 (example_failure 5 ''http://blocked.test/'')]
        (example_service []))
   = Inr [Call_addHostname ''blocked.test'',
          Notify_NON_ROUTABLE_DOMAIN_ADDED ''blocked.test'',
          Tabs_update 5 ''http://blocked.test/'']"
  by (simp add: handleNonRoutableDomains_def handleWebRequestErrors_def example_env_def
        example_getHostname_def example_service_def example_failure_def falsy_hostname_def
        tab_and_url_def is_main_frame_error_def MAIN_FRAME_def STATUS_CODE_def ERROR_def
        addNewNonRoutableDomain_def addHostname_def updateStorage_def updateStorage_flush_def
        shouldInvoke_def throttle_new_def STORAGE_UPDATE_TIMEOUT_MS_def trim_list_short
        NON_ROUTABLE_MAX_LENGTH_def Let_def)

subsection \<open>The classifier\<close>

text \<open>
  C3, as the code has it: for every url, \<open>isUrlRoutable\<close> answers by this sequence of
  decisions. If no hostname can be extracted (\<^verbatim>\<open>null\<close> or the empty string) the answer
  is true. Else, if the hostname is \<^verbatim>\<open>localhost\<close> or is in the non-routable list, the
  answer is false. Else, if the hostname is not an IP literal, the answer is true. Else,
  if the parsed address is an IPv6 address, the answer is true whatever the ranges are.
  Else, when every configured range is an IPv4 range, the answer is false exactly when
  the IPv4 address matches at least one of them.
\<close>

theorem isUrlRoutable_decision_sequence:
  "(falsy_hostname (getHostname env u) \<longrightarrow> fst (isUrlRoutable env u s) = Inr True)
   \<and> (getHostname env u = Some hostname \<and> hostname \<noteq> [] \<longrightarrow>
        (hostname = ''localhost'' \<or> hostname \<in> set (nonRoutableList s)
           \<longrightarrow> fst (isUrlRoutable env u s) = Inr False)
        \<and> (hostname \<noteq> ''localhost'' \<and> hostname \<notin> set (nonRoutableList s) \<longrightarrow>
             (\<not> isIP env hostname \<longrightarrow> fst (isUrlRoutable env u s) = Inr True)
             \<and> (isIP env hostname \<longrightarrow>
                  (\<forall>parts. ipaddr_parse env hostname = IPv6 parts
                     \<longrightarrow> fst (isUrlRoutable env u s) = Inr True)
                  \<and> (\<forall>octets. ipaddr_parse env hostname = IPv4 octets
                               \<and> list_all is_IPv4_range (parsedCIDRList s)
                     \<longrightarrow> fst (isUrlRoutable env u s)
                          = Inr (\<not> (\<exists>parsedCIDR \<in> set (parsedCIDRList s).
                                  ipaddr_match env (IPv4 octets) parsedCIDR))))))"
  by (auto simp: isUrlRoutable_def falsy_hostname_def LOCALHOST_def kind_def IPV6_def Let_def
        some_match_IPv4)

text \<open>
  The decisions at seven urls: no hostname, \<^verbatim>\<open>localhost\<close>, a listed hostname, an unlisted
  name, an IPv6 literal, an IPv4 literal inside 127.0.0.0/8 and one outside both ranges.
\<close>

theorem isUrlRoutable_decision_sequence_witness:
  "list_all is_IPv4_range (parsedCIDRList (example_service [''blocked.test'']))
   \<and> fst (isUrlRoutable example_env ''not a url'' (example_service [''blocked.test''])) = Inr True
   \<and> fst (isUrlRoutable example_env ''http://localhost/'' (example_service [''blocked.test''])) = Inr False
   \<and> fst (isUrlRoutable example_env ''http://blocked.test/'' (example_service [''blocked.test''])) = Inr False
   \<and> fst (isUrlRoutable example_env ''http://other.test/'' (example_service [''blocked.test''])) = Inr True
   \<and> fst (isUrlRoutable example_env ''http://[::1]/'' (example_service [''blocked.test''])) = Inr True
   \<and> fst (isUrlRoutable example_env ''http://127.0.0.1/'' (example_service [''blocked.test''])) = Inr False
   \<and> fst (isUrlRoutable example_env ''http://8.8.8.8/'' (example_service [''blocked.test''])) = Inr True"
  using
    isUrlRoutable_decision_sequence [where env = example_env and u = "''not a url''"
      and s = "example_service [''blocked.test'']"]
    isUrlRoutable_decision_sequence [where env = example_env and u = "''http://localhost/''"
      and hostname = "''localhost''" and s = "example_service [''blocked.test'']"]
    isUrlRoutable_decision_sequence [where env = example_env and u = "''http://blocked.test/''"
      and hostname = "''blocked.test''" and s = "example_service [''blocked.test'']"]
    isUrlRoutable_decision_sequence [where env = example_env and u = "''http://other.test/''"
      and hostname = "''other.test''" and s = "example_service [''blocked.test'']"]
    isUrlRoutable_decision_sequence [where env = example_env and u = "''http://[::1]/''"
      and hostname = "''::1''" and s = "example_service [''blocked.test'']"]
    isUrlRoutable_decision_sequence [where env = example_env and u = "''http://127.0.0.1/''"
      and hostname = "''127.0.0.1''" and s = "example_service [''blocked.test'']"]
    isUrlRoutable_decision_sequence [where env = example_env and u = "''http://8.8.8.8/''"
      and hostname = "''8.8.8.8''" and s = "example_service [''blocked.test'']"]
  by (simp add: example_env_def example_getHostname_def example_isIP_def example_parse_def
        example_match_def example_number_def example_service_def falsy_hostname_def
        is_IPv4_range_def kind_def)

text \<open>
  C3 as it is written fails when an IPv6 range is configured: the constructor parses it,
  and for an IPv4 literal \<^verbatim>\<open>IPv4.match\<close> throws on it, so \<open>isUrlRoutable\<close> returns
  neither false for \<^verbatim>\<open>127.0.0.1\<close>, which the second range holds, nor true for
  \<^verbatim>\<open>8.8.8.8\<close>, which no range holds.
\<close>

theorem isUrlRoutable_throws_on_IPv6_range:
  "constructor (example_env\<lparr> NON_ROUTABLE_CIDR_NETS := [''fc00::/7'', ''127.0.0.0/8''] \<rparr>) Map.empty
     = Inr ((example_service [])
             \<lparr> parsedCIDRList := [(IPv6 [64512, 0, 0, 0, 0, 0, 0, 0], 7), (IPv4 [127, 0, 0, 0], 8)],
               storage := Map.empty \<rparr>)
   \<and> fst (isUrlRoutable
            (example_env\<lparr> NON_ROUTABLE_CIDR_NETS := [''fc00::/7'', ''127.0.0.0/8''] \<rparr>)
            ''http://127.0.0.1/''
            ((example_service [])
               \<lparr> parsedCIDRList := [(IPv6 [64512, 0, 0, 0, 0, 0, 0, 0], 7), (IPv4 [127, 0, 0, 0], 8)],
                 storage := Map.empty \<rparr>))
       = Inl (Error ''ipaddr: cannot match ipv4 address with non-ipv4 one'')
   \<and> fst (isUrlRoutable
            (example_env\<lparr> NON_ROUTABLE_CIDR_NETS := [''fc00::/7'', ''127.0.0.0/8''] \<rparr>)
            ''http://8.8.8.8/''
            ((example_service [])
               \<lparr> parsedCIDRList := [(IPv6 [64512, 0, 0, 0, 0, 0, 0, 0], 7), (IPv4 [127, 0, 0, 0], 8)],
                 storage := Map.empty \<rparr>))
       = Inl (Error ''ipaddr: cannot match ipv4 address with non-ipv4 one'')"
  by (simp add: constructor_def isUrlRoutable_def example_env_def example_getHostname_def
        example_isIP_def example_parse_def example_parseCIDR_def example_service_def
        falsy_hostname_def LOCALHOST_def IPV6_def kind_def IPv4_match_def is_IPv4_range_def
        Let_def)

text \<open>
  C9: \<open>isUrlRoutable\<close> has no side effect. For every url, the instance after the call
  is the instance before it: the list, both pending-event mappings, the state of the
  throttle, the storage and the log of notifications and retries are the same.
\<close>

theorem isUrlRoutable_leaves_service: "snd (isUrlRoutable env u s) = s"
  by (simp add: isUrlRoutable_def Let_def split: sum.splits)

theorem isUrlRoutable_leaves_service_witness:
  "snd (isUrlRoutable example_env ''http://127.0.0.1/'' (example_service [''blocked.test'']))
     = example_service [''blocked.test'']"
  using isUrlRoutable_leaves_service [of example_env "''http://127.0.0.1/''" "example_service [''blocked.test'']"]
  by simp

subsection \<open>The list store\<close>

text \<open>
  C4, as the code has it. Start from an instance whose list has no duplicate and is
  either at most \<open>NON_ROUTABLE_MAX_LENGTH\<close> long or has a call of \<open>updateStorage\<close>
  waiting in the throttle, and let any sequence of calls run (reports, failures, direct
  additions, timer of the throttle). Whatever call comes next, the list after it has no
  duplicate. It is the list before the call, or that list with one hostname it did not
  hold appended at the end, without a number of its oldest entries; so the hostnames
  that are in the list before and after the call stand in the same order. Its length is
  at most the maximum whenever no call waits in the throttle, and after every flush.
\<close>

theorem list_invariant:
  assumes "distinct (nonRoutableList s0)"
    and "lastArgs (updateStorage_throttle s0)
         \<or> length (nonRoutableList s0) \<le> NON_ROUTABLE_MAX_LENGTH"
    and "run env cs s0 = Inr s"
    and "deliver env c s = Inr s'"
  shows "distinct (nonRoutableList s')
     \<and> ((\<exists>k. nonRoutableList s' = drop k (nonRoutableList s))
        \<or> (\<exists>k h. h \<notin> set (nonRoutableList s)
              \<and> nonRoutableList s' = drop k (nonRoutableList s @ [h])))
     \<and> filter (\<lambda>x. x \<in> set (nonRoutableList s')) (nonRoutableList s)
         = filter (\<lambda>x. x \<in> set (nonRoutableList s)) (nonRoutableList s')
     \<and> (lastArgs (updateStorage_throttle s')
        \<or> length (nonRoutableList s') \<le> NON_ROUTABLE_MAX_LENGTH)
     \<and> length (nonRoutableList (updateStorage_flush now s')) \<le> NON_ROUTABLE_MAX_LENGTH"
proof -
  note ri = run_invariant [OF assms(1,2,3)]
  have d: "distinct (nonRoutableList s)" by (rule ri [THEN conjunct1])
  have p: "lastArgs (updateStorage_throttle s)
        \<or> length (nonRoutableList s) \<le> NON_ROUTABLE_MAX_LENGTH"
    by (rule ri [THEN conjunct2])
  note st = deliver_step [OF d p assms(4)]
  have d': "distinct (nonRoutableList s')" by (rule st [THEN conjunct1])
  have p': "lastArgs (updateStorage_throttle s')
        \<or> length (nonRoutableList s') \<le> NON_ROUTABLE_MAX_LENGTH"
    by (rule st [THEN conjunct2, THEN conjunct1])
  have r: "(\<exists>k. nonRoutableList s' = drop k (nonRoutableList s))
        \<or> (\<exists>k h. h \<notin> set (nonRoutableList s)
              \<and> nonRoutableList s' = drop k (nonRoutableList s @ [h]))"
    by (rule st [THEN conjunct2, THEN conjunct2])
  have o: "filter (\<lambda>x. x \<in> set (nonRoutableList s')) (nonRoutableList s)
         = filter (\<lambda>x. x \<in> set (nonRoutableList s)) (nonRoutableList s')"
    using r
  proof
    assume "\<exists>k. nonRoutableList s' = drop k (nonRoutableList s)"
    then obtain k where "nonRoutableList s' = drop k (nonRoutableList s)" ..
    then show ?thesis by (rule order_kept_drop [OF d])
  next
    assume "\<exists>k h. h \<notin> set (nonRoutableList s)
              \<and> nonRoutableList s' = drop k (nonRoutableList s @ [h])"
    then obtain k h where "h \<notin> set (nonRoutableList s)"
      "nonRoutableList s' = drop k (nonRoutableList s @ [h])" by auto
    then show ?thesis by (rule order_kept_snoc [OF d])
  qed
  have f: "length (nonRoutableList (updateStorage_flush now s')) \<le> NON_ROUTABLE_MAX_LENGTH"
    by (simp add: trim_list_length)
  show ?thesis
  proof (intro conjI)
    show "distinct (nonRoutableList s')" by (rule d')
    show "(\<exists>k. nonRoutableList s' = drop k (nonRoutableList s))
        \<or> (\<exists>k h. h \<notin> set (nonRoutableList s)
              \<and> nonRoutableList s' = drop k (nonRoutableList s @ [h]))" by (rule r)
    show "filter (\<lambda>x. x \<in> set (nonRoutableList s')) (nonRoutableList s)
         = filter (\<lambda>x. x \<in> set (nonRoutableList s)) (nonRoutableList s')" by (rule o)
    show "lastArgs (updateStorage_throttle s')
        \<or> length (nonRoutableList s') \<le> NON_ROUTABLE_MAX_LENGTH" by (rule p')
    show "length (nonRoutableList (updateStorage_flush now s')) \<le> NON_ROUTABLE_MAX_LENGTH"
      by (rule f)
  qed
qed

text \<open>
  The scenario of the specification from a new instance: a gateway failure on tab 5,
  then the report that commits the hostname.
\<close>

theorem list_invariant_witness:
  "distinct (nonRoutableList (example_service []))
   \<and> length (nonRoutableList (example_service [])) \<le> NON_ROUTABLE_MAX_LENGTH
   \<and> run example_env [WebRequestError 0 (example_failure 5 ''http://blocked.test/'')]
        (example_service [])
      = Inr ((example_service [])
              \<lparr> webRequestErrorHostnames :=
                  [''blocked.test'' \<mapsto>
                     Data \<lparr> timeAdded = 0, tabId = Some 5, url = Some ''http://blocked.test/'' \<rparr>] \<rparr>)
   \<and> deliver example_env (NonRoutableDomainFound 300 ''blocked.test'')
        ((example_service [])
              \<lparr> webRequestErrorHostnames :=
                  [''blocked.test'' \<mapsto>
                     Data \<lparr> timeAdded = 0, tabId = Some 5, url = Some ''http://blocked.test/'' \<rparr>] \<rparr>)
      = Inr ((example_service [''blocked.test''])
              \<lparr> updateStorage_throttle :=
                  \<lparr> lastArgs = False, lastCallTime = Some 300, lastInvokeTime = 300,
                    timerId = True \<rparr>,
                effects := [Call_addHostname ''blocked.test'',
                            Notify_NON_ROUTABLE_DOMAIN_ADDED ''blocked.test'',
                            Tabs_update 5 ''http://blocked.test/''] \<rparr>)
   \<and> distinct (nonRoutableList ((example_service [''blocked.test''])
              \<lparr> updateStorage_throttle :=
                  \<lparr> lastArgs = False, lastCallTime = Some 300, lastInvokeTime = 300,
                    timerId = True \<rparr>,
                effects := [Call_addHostname ''blocked.test'',
                            Notify_NON_ROUTABLE_DOMAIN_ADDED ''blocked.test'',
                            Tabs_update 5 ''http://blocked.test/''] \<rparr>))
   \<and> length (nonRoutableList ((example_service [''blocked.test''])
              \<lparr> updateStorage_throttle :=
                  \<lparr> lastArgs = False, lastCallTime = Some 300, lastInvokeTime = 300,
                    timerId = True \<rparr>,
                effects := [Call_addHostname ''blocked.test'',
                            Notify_NON_ROUTABLE_DOMAIN_ADDED ''blocked.test'',
                            Tabs_update 5 ''http://blocked.test/''] \<rparr>))
       \<le> NON_ROUTABLE_MAX_LENGTH"
proof -
  let ?s = "(example_service [])
              \<lparr> webRequestErrorHostnames :=
                  [''blocked.test'' \<mapsto>
                     Data \<lparr> timeAdded = 0, tabId = Some 5, url = Some ''http://blocked.test/'' \<rparr>] \<rparr>"
  let ?s' = "(example_service [''blocked.test''])
              \<lparr> updateStorage_throttle :=
                  \<lparr> lastArgs = False, lastCallTime = Some 300, lastInvokeTime = 300,
                    timerId = True \<rparr>,
                effects := [Call_addHostname ''blocked.test'',
                            Notify_NON_ROUTABLE_DOMAIN_ADDED ''blocked.test'',
                            Tabs_update 5 ''http://blocked.test/''] \<rparr>"
  have d: "distinct (nonRoutableList (example_service []))" by (simp add: example_service_def)
  have p: "lastArgs (updateStorage_throttle (example_service []))
           \<or> length (nonRoutableList (example_service [])) \<le> NON_ROUTABLE_MAX_LENGTH"
    by (simp add: example_service_def)
  have r: "run example_env [WebRequestError 0 (example_failure 5 ''http://blocked.test/'')]
        (example_service []) = Inr ?s"
    by (simp add: handleNonRoutableDomains_def handleWebRequestErrors_def example_env_def
        example_getHostname_def example_service_def example_failure_def falsy_hostname_def
        tab_and_url_def is_main_frame_error_def MAIN_FRAME_def STATUS_CODE_def ERROR_def
        addNewNonRoutableDomain_def addHostname_def updateStorage_def updateStorage_flush_def
        shouldInvoke_def throttle_new_def STORAGE_UPDATE_TIMEOUT_MS_def trim_list_short
        NON_ROUTABLE_MAX_LENGTH_def Let_def)
  have c: "deliver example_env (NonRoutableDomainFound 300 ''blocked.test'') ?s = Inr ?s'"
    by (simp add: handleNonRoutableDomains_def handleWebRequestErrors_def example_env_def
        example_getHostname_def example_service_def example_failure_def falsy_hostname_def
        tab_and_url_def is_main_frame_error_def MAIN_FRAME_def STATUS_CODE_def ERROR_def
        addNewNonRoutableDomain_def addHostname_def updateStorage_def updateStorage_flush_def
        shouldInvoke_def throttle_new_def STORAGE_UPDATE_TIMEOUT_MS_def trim_list_short
        NON_ROUTABLE_MAX_LENGTH_def Let_def)
  have l: "\<not> lastArgs (updateStorage_throttle ?s')" by simp
  from list_invariant [OF d p r c, of 300] l show ?thesis
    using d r c by (simp add: example_service_def)
qed

text \<open>
  C4 as it is written fails between a throttled \<open>addHostname\<close> and the flush that
  follows it. With 999 saved hostnames, a pair matched at time 1 brings the list to 1000
  entries and flushes at once; a second pair matched at time 3 is inside the wait of the
  throttle, so the list has 1001 entries when the handler returns.
\<close>

theorem list_longer_than_maximum_while_flush_pending:
  "map_sum id (\<lambda>s. length (nonRoutableList s))
     (run example_env
        [NonRoutableDomainFound 0 ''blocked.test'',
         WebRequestError 1 (example_failure 5 ''http://blocked.test/''),
         NonRoutableDomainFound 2 ''other.test'',
         WebRequestError 3 (example_failure 6 ''http://other.test/'')]
        (example_service (example_hosts 999)))
   = Inr 1001
   \<and> \<not> 1001 \<le> NON_ROUTABLE_MAX_LENGTH"
  by (simp add: handleNonRoutableDomains_def handleWebRequestErrors_def example_env_def
        example_getHostname_def example_service_def example_failure_def falsy_hostname_def
        tab_and_url_def is_main_frame_error_def MAIN_FRAME_def STATUS_CODE_def ERROR_def
        addNewNonRoutableDomain_def addHostname_def updateStorage_def updateStorage_flush_def
        shouldInvoke_def throttle_new_def STORAGE_UPDATE_TIMEOUT_MS_def trim_list_short
        NON_ROUTABLE_MAX_LENGTH_def Let_def)

text \<open>
  C5: a flush first removes the oldest entries in chunks of \<open>CLEAR_CAPACITY\<close>, as many
  chunks as it takes and no more, so that the list it stores is at most
  \<open>NON_ROUTABLE_MAX_LENGTH\<close> long. Let \<open>addHostname\<close> be called, at any times and with
  the timer of the throttle firing anywhere in between, with hostnames that are all
  different and not yet listed, more than the maximum in all together with the ones
  already listed. The flush that runs next leaves at most the maximum, and more than the
  maximum less one chunk: they are the hostnames added last, in the order of their
  insertion, a whole number of chunks of the oldest having gone; and this list is what
  the storage then holds.
\<close>

theorem flush_evicts_oldest_chunks:
  assumes "\<forall>c \<in> set cs. is_list_call c"
    and "distinct (nonRoutableList s @ added_hostnames cs)"
    and "NON_ROUTABLE_MAX_LENGTH < length (nonRoutableList s @ added_hostnames cs)"
  shows "(\<exists>j. nonRoutableList (updateStorage_flush now s)
                 = drop (CLEAR_CAPACITY * j) (nonRoutableList s)
            \<and> length (nonRoutableList (updateStorage_flush now s)) \<le> NON_ROUTABLE_MAX_LENGTH
            \<and> (0 < j \<longrightarrow> NON_ROUTABLE_MAX_LENGTH - CLEAR_CAPACITY
                             < length (nonRoutableList (updateStorage_flush now s))))
     \<and> (\<exists>s' k. run env cs s = Inr s'
            \<and> nonRoutableList (updateStorage_flush now s')
                = drop (CLEAR_CAPACITY * k) (nonRoutableList s @ added_hostnames cs)
            \<and> length (nonRoutableList (updateStorage_flush now s')) \<le> NON_ROUTABLE_MAX_LENGTH
            \<and> NON_ROUTABLE_MAX_LENGTH - CLEAR_CAPACITY
                < length (nonRoutableList (updateStorage_flush now s'))
            \<and> storage (updateStorage_flush now s') NON_ROUTABLE_KEY
                = Some (nonRoutableList (updateStorage_flush now s')))"
proof
  have l: "nonRoutableList (updateStorage_flush now s) = trim_list (nonRoutableList s)"
    by simp
  show "\<exists>j. nonRoutableList (updateStorage_flush now s)
                 = drop (CLEAR_CAPACITY * j) (nonRoutableList s)
            \<and> length (nonRoutableList (updateStorage_flush now s)) \<le> NON_ROUTABLE_MAX_LENGTH
            \<and> (0 < j \<longrightarrow> NON_ROUTABLE_MAX_LENGTH - CLEAR_CAPACITY
                             < length (nonRoutableList (updateStorage_flush now s)))"
    unfolding l using trim_list_drop [of "nonRoutableList s"] trim_list_length [of "nonRoutableList s"]
    by blast
next
  have start: "nonRoutableList s = drop (CLEAR_CAPACITY * 0) (nonRoutableList s)" by simp
  have "(0::nat) < 0 \<longrightarrow> NON_ROUTABLE_MAX_LENGTH - CLEAR_CAPACITY < length (nonRoutableList s)"
    by simp
  from run_chunks [OF assms(1,2) start this, of env] obtain s' k1 where
    r: "run env cs s = Inr s'"
    and k1: "nonRoutableList s' = drop (CLEAR_CAPACITY * k1) (nonRoutableList s @ added_hostnames cs)"
      "0 < k1 \<longrightarrow> NON_ROUTABLE_MAX_LENGTH - CLEAR_CAPACITY < length (nonRoutableList s')"
    by blast
  from flush_chunks [OF k1, of now] obtain k where
    k: "nonRoutableList (updateStorage_flush now s')
         = drop (CLEAR_CAPACITY * k) (nonRoutableList s @ added_hostnames cs)"
      "0 < k \<longrightarrow> NON_ROUTABLE_MAX_LENGTH - CLEAR_CAPACITY
                       < length (nonRoutableList (updateStorage_flush now s'))"
    by blast
  have le: "length (nonRoutableList (updateStorage_flush now s')) \<le> NON_ROUTABLE_MAX_LENGTH"
    by (simp add: trim_list_length)
  have "0 < k"
  proof (rule ccontr)
    assume "\<not> 0 < k"
    then have "nonRoutableList (updateStorage_flush now s')
         = nonRoutableList s @ added_hostnames cs" using k(1) by simp
    then show False using le assms(3) by simp
  qed
  then have gt: "NON_ROUTABLE_MAX_LENGTH - CLEAR_CAPACITY
                       < length (nonRoutableList (updateStorage_flush now s'))"
    using k(2) by simp
  have st: "storage (updateStorage_flush now s') NON_ROUTABLE_KEY
         = Some (nonRoutableList (updateStorage_flush now s'))"
    by simp
  show "\<exists>s' k. run env cs s = Inr s'
            \<and> nonRoutableList (updateStorage_flush now s')
                = drop (CLEAR_CAPACITY * k) (nonRoutableList s @ added_hostnames cs)
            \<and> length (nonRoutableList (updateStorage_flush now s')) \<le> NON_ROUTABLE_MAX_LENGTH
            \<and> NON_ROUTABLE_MAX_LENGTH - CLEAR_CAPACITY
                < length (nonRoutableList (updateStorage_flush now s'))
            \<and> storage (updateStorage_flush now s') NON_ROUTABLE_KEY
                = Some (nonRoutableList (updateStorage_flush now s'))"
    using r k(1) le gt st by blast
qed

text \<open>
  1001 different hostnames added at time 0 to a new instance, flushed at time 1000.
\<close>

theorem flush_evicts_oldest_chunks_witness:
  "list_all is_list_call (map (AddHostname 0) (example_hosts 1001))
   \<and> distinct (nonRoutableList (example_service [])
                @ added_hostnames (map (AddHostname 0) (example_hosts 1001)))
   \<and> NON_ROUTABLE_MAX_LENGTH
       < length (nonRoutableList (example_service [])
                 @ added_hostnames (map (AddHostname 0) (example_hosts 1001)))
   \<and> (\<exists>s' k. run example_env (map (AddHostname 0) (example_hosts 1001)) (example_service [])
                = Inr s'
          \<and> nonRoutableList (updateStorage_flush 1000 s')
              = drop (CLEAR_CAPACITY * k) (example_hosts 1001)
          \<and> length (nonRoutableList (updateStorage_flush 1000 s')) \<le> NON_ROUTABLE_MAX_LENGTH
          \<and> NON_ROUTABLE_MAX_LENGTH - CLEAR_CAPACITY
              < length (nonRoutableList (updateStorage_flush 1000 s')))"
proof -
  have calls: "\<forall>c \<in> set (map (AddHostname 0) (example_hosts 1001)). is_list_call c" by simp
  have d: "distinct (nonRoutableList (example_service [])
                @ added_hostnames (map (AddHostname 0) (example_hosts 1001)))"
    by (simp add: example_service_def)
  have more: "NON_ROUTABLE_MAX_LENGTH
       < length (nonRoutableList (example_service [])
                 @ added_hostnames (map (AddHostname 0) (example_hosts 1001)))"
    by (simp add: example_service_def NON_ROUTABLE_MAX_LENGTH_def)
  have l: "nonRoutableList (example_service []) = []" by (simp add: example_service_def)
  from flush_evicts_oldest_chunks [OF calls d more, of 1000 example_env]
  show ?thesis using calls d more unfolding l by (auto simp: list_all_iff)
qed

text \<open>
  C6, as the code has it. \<open>addHostname\<close> is idempotent: on a list without duplicates
  the second of two calls in sequence for a hostname leaves the list as the first call
  left it, the list holds the hostname exactly once, and the two calls broadcast nothing.
  The notification is broadcast by \<open>addNewNonRoutableDomain\<close>, the path the
  correlation takes: each call of it calls \<open>addHostname\<close> once and then broadcasts one
  notification that carries the hostname, whether the hostname was new to the list or
  not. Two commits of a hostname in sequence leave it in the list once and broadcast two
  notifications.
\<close>

theorem addHostname_idempotent:
  assumes "distinct (nonRoutableList s)"
  shows "nonRoutableList (addHostname now' hostname (addHostname now hostname s))
           = nonRoutableList (addHostname now hostname s)
         \<and> count_list (nonRoutableList (addHostname now' hostname (addHostname now hostname s)))
             hostname = 1
         \<and> effects (addHostname now' hostname (addHostname now hostname s))
           = effects s @ [Call_addHostname hostname, Call_addHostname hostname]
         \<and> effects (addNewNonRoutableDomain now hostname s)
           = effects s @ [Call_addHostname hostname, Notify_NON_ROUTABLE_DOMAIN_ADDED hostname]
         \<and> nonRoutableList (addNewNonRoutableDomain now' hostname
                               (addNewNonRoutableDomain now hostname s))
           = nonRoutableList (addNewNonRoutableDomain now hostname s)
         \<and> count_list (nonRoutableList (addNewNonRoutableDomain now' hostname
                                           (addNewNonRoutableDomain now hostname s)))
             hostname = 1
         \<and> effects (addNewNonRoutableDomain now' hostname
                       (addNewNonRoutableDomain now hostname s))
           = effects s @ [Call_addHostname hostname, Notify_NON_ROUTABLE_DOMAIN_ADDED hostname,
                          Call_addHostname hostname, Notify_NON_ROUTABLE_DOMAIN_ADDED hostname]"
proof -
  let ?s1 = "addHostname now hostname s"
  let ?c1 = "addNewNonRoutableDomain now hostname s"
  have listed: "hostname \<in> set (nonRoutableList ?s1)" by (rule addHostname_lists)
  have d: "distinct (nonRoutableList ?s1)" using assms by (rule addHostname_distinct)
  have same: "nonRoutableList (addHostname now' hostname ?s1) = nonRoutableList ?s1"
    using listed by (simp add: addHostname_listed)
  have once: "count_list (nonRoutableList ?s1) hostname = 1"
    using listed d by (simp add: count_list_distinct)
  have listed': "hostname \<in> set (nonRoutableList ?c1)" using listed by simp
  have same': "nonRoutableList (addNewNonRoutableDomain now' hostname ?c1) = nonRoutableList ?s1"
    using listed' by (simp add: addHostname_listed)
  show ?thesis using same once same' by simp
qed

text \<open>
  Two additions and two commits of \<^verbatim>\<open>blocked.test\<close>, on a list that holds
  \<^verbatim>\<open>other.test\<close>.
\<close>

theorem addHostname_idempotent_witness:
  "distinct (nonRoutableList (example_service [''other.test'']))
   \<and> nonRoutableList (addHostname 1 ''blocked.test''
         (addHostname 0 ''blocked.test'' (example_service [''other.test''])))
       = nonRoutableList (addHostname 0 ''blocked.test'' (example_service [''other.test'']))
   \<and> count_list (nonRoutableList (addHostname 1 ''blocked.test''
         (addHostname 0 ''blocked.test'' (example_service [''other.test''])))) ''blocked.test'' = 1
   \<and> effects (addHostname 1 ''blocked.test''
         (addHostname 0 ''blocked.test'' (example_service [''other.test''])))
       = [Call_addHostname ''blocked.test'', Call_addHostname ''blocked.test'']
   \<and> effects (addNewNonRoutableDomain 1 ''blocked.test''
         (addNewNonRoutableDomain 0 ''blocked.test'' (example_service [''other.test''])))
       = [Call_addHostname ''blocked.test'', Notify_NON_ROUTABLE_DOMAIN_ADDED ''blocked.test'',
          Call_addHostname ''blocked.test'', Notify_NON_ROUTABLE_DOMAIN_ADDED ''blocked.test'']"
proof -
  have d: "distinct (nonRoutableList (example_service [''other.test'']))"
    by (simp add: example_service_def)
  have e: "effects (example_service [''other.test'']) = []"
    by (simp add: example_service_def)
  from addHostname_idempotent [OF d, of 1 "''blocked.test''" 0] show ?thesis
    using d e by auto
qed

text \<open>
  C6 as it is written fails at its notification half: two pairs matched for
  \<^verbatim>\<open>blocked.test\<close> put one entry in the list and broadcast two notifications, the
  second one for an entry that was not new.
\<close>

theorem second_correlation_notifies_again:
  "map_sum id nonRoutableList
     (run example_env
        [NonRoutableDomainFound 0 ''blocked.test'',
         WebRequestError 300 (example_failure 5 ''http://blocked.test/''),
         NonRoutableDomainFound 5000 ''blocked.test'',
         WebRequestError 5300 (example_failure 5 ''http://blocked.test/'')]
        (example_service []))
   = Inr [''blocked.test'']
   \<and> map_sum id effects
     (run example_env
        [NonRoutableDomainFound 0 ''blocked.test'',
         WebRequestError 300 (example_failure 5 ''http://blocked.test/''),
         NonRoutableDomainFound 5000 ''blocked.test'',
         WebRequestError 5300 (example_failure 5 ''http://blocked.test/'')]
        (example_service []))
   = Inr [Call_addHostname ''blocked.test'',
          Notify_NON_ROUTABLE_DOMAIN_ADDED ''blocked.test'',
          Tabs_update 5 ''http://blocked.test/'',
          Call_addHostname ''blocked.test'',
          Notify_NON_ROUTABLE_DOMAIN_ADDED ''blocked.test'',
          Tabs_update 5 ''http://blocked.test/'']"
  by (simp add: handleNonRoutableDomains_def handleWebRequestErrors_def example_env_def
        example_getHostname_def example_service_def example_failure_def falsy_hostname_def
        tab_and_url_def is_main_frame_error_def MAIN_FRAME_def STATUS_CODE_def ERROR_def
        addNewNonRoutableDomain_def addHostname_def updateStorage_def updateStorage_flush_def
        shouldInvoke_def throttle_new_def STORAGE_UPDATE_TIMEOUT_MS_def trim_list_short
        NON_ROUTABLE_MAX_LENGTH_def Let_def)

subsection \<open>Construction\<close>

text \<open>
  C7: if one of the configured ranges does not parse, the constructor throws; and when
  the constructor returns an instance, its parsed list is the list of the configured
  ranges, each one parsed, in the same order and with none left out.
\<close>

theorem constructor_fails_on_malformed_range:
  "((\<exists>net \<in> set (NON_ROUTABLE_CIDR_NETS env). \<exists>e. ipaddr_parseCIDR env net = Inl e)
      \<longrightarrow> (\<exists>e. constructor env storage0 = Inl e))
   \<and> (constructor env storage0 = Inr s
      \<longrightarrow> map (ipaddr_parseCIDR env) (NON_ROUTABLE_CIDR_NETS env) = map Inr (parsedCIDRList s))"
  by (auto simp: constructor_def split: sum.splits dest: map_parseCIDR_Inl map_parseCIDR_Inr)

text \<open>
  With a malformed second range the constructor throws; with the two ranges of
  \<open>example_env\<close> it returns an instance that holds both.
\<close>

theorem constructor_fails_on_malformed_range_witness:
  "(\<exists>net \<in> set (NON_ROUTABLE_CIDR_NETS
                    (example_env\<lparr> NON_ROUTABLE_CIDR_NETS := [''10.0.0.0/8'', ''10.0.0.0/x''] \<rparr>)).
      \<exists>e. ipaddr_parseCIDR
             (example_env\<lparr> NON_ROUTABLE_CIDR_NETS := [''10.0.0.0/8'', ''10.0.0.0/x''] \<rparr>) net
           = Inl e)
   \<and> (\<exists>e. constructor
              (example_env\<lparr> NON_ROUTABLE_CIDR_NETS := [''10.0.0.0/8'', ''10.0.0.0/x''] \<rparr>)
              Map.empty = Inl e)
   \<and> constructor example_env Map.empty = Inr ((example_service [])\<lparr> storage := Map.empty \<rparr>)
   \<and> map (ipaddr_parseCIDR example_env) (NON_ROUTABLE_CIDR_NETS example_env)
       = map Inr (parsedCIDRList ((example_service [])\<lparr> storage := Map.empty \<rparr>))"
proof -
  have bad: "\<exists>net \<in> set (NON_ROUTABLE_CIDR_NETS
                    (example_env\<lparr> NON_ROUTABLE_CIDR_NETS := [''10.0.0.0/8'', ''10.0.0.0/x''] \<rparr>)).
      \<exists>e. ipaddr_parseCIDR
             (example_env\<lparr> NON_ROUTABLE_CIDR_NETS := [''10.0.0.0/8'', ''10.0.0.0/x''] \<rparr>) net
           = Inl e"
    by (simp add: example_env_def example_parseCIDR_def)
  have good: "constructor example_env Map.empty
                = Inr ((example_service [])\<lparr> storage := Map.empty \<rparr>)"
    by (simp add: constructor_def example_env_def example_parseCIDR_def example_service_def
          init_def)
  show ?thesis
    using bad good
      constructor_fails_on_malformed_range
        [where env = "example_env\<lparr> NON_ROUTABLE_CIDR_NETS := [''10.0.0.0/8'', ''10.0.0.0/x''] \<rparr>"
           and ?storage0.0 = Map.empty]
      constructor_fails_on_malformed_range
        [where env = example_env and ?storage0.0 = Map.empty
           and s = "(example_service [])\<lparr> storage := Map.empty \<rparr>"]
    by blast
qed

subsection \<open>The event handlers\<close>

text \<open>
  C8: both handlers return without doing anything, and leave the whole instance as it
  was (both pending-event mappings, the list, the notifications and the retries), when
  their precondition fails: \<open>handleNonRoutableDomains\<close> when its argument is empty or no
  hostname can be extracted from it; \<open>handleWebRequestErrors\<close> when the request is not a
  \<^verbatim>\<open>main_frame\<close> request, or the error is not \<^verbatim>\<open>net::ERR_TUNNEL_CONNECTION_FAILED\<close> and
  the status code is not 502, or no hostname can be extracted from the url of the event.
  Neither handler throws, whatever its argument.
\<close>

theorem handlers_ignore_unusable_input:
  "(nonRoutableDomain = [] \<or> falsy_hostname (getHostname env nonRoutableDomain)
      \<longrightarrow> handleNonRoutableDomains env now nonRoutableDomain s = Inr s)
   \<and> (details_type d \<noteq> ''main_frame''
       \<or> (details_error d \<noteq> Some ''net::ERR_TUNNEL_CONNECTION_FAILED''
           \<and> details_statusCode d \<noteq> Some 502)
       \<or> falsy_hostname (getHostname env (details_url d))
      \<longrightarrow> handleWebRequestErrors env now d s = Inr s)
   \<and> (\<forall>e. handleNonRoutableDomains env now anyDomain s \<noteq> Inl e)
   \<and> (\<forall>e. handleWebRequestErrors env now anyDetails s \<noteq> Inl e)"
  by (auto simp: handleNonRoutableDomains_def handleWebRequestErrors_def is_main_frame_error_def
        MAIN_FRAME_def ERROR_def STATUS_CODE_def Let_def split: prod.splits option.splits)

text \<open>
  Each failing precondition at a concrete call: a string without a hostname, the empty
  string, an image request, a status code of 404, a url without a hostname.
\<close>

theorem handlers_ignore_unusable_input_witness:
  "falsy_hostname (getHostname example_env ''not a url'')
   \<and> handleNonRoutableDomains example_env 7 ''not a url'' (example_service [''other.test''])
       = Inr (example_service [''other.test''])
   \<and> handleNonRoutableDomains example_env 7 [] (example_service [''other.test''])
       = Inr (example_service [''other.test''])
   \<and> details_type ((example_failure 5 ''http://blocked.test/'')\<lparr> details_type := ''image'' \<rparr>)
       \<noteq> ''main_frame''
   \<and> handleWebRequestErrors example_env 7
        ((example_failure 5 ''http://blocked.test/'')\<lparr> details_type := ''image'' \<rparr>)
        (example_service [''other.test''])
       = Inr (example_service [''other.test''])
   \<and> handleWebRequestErrors example_env 7
        ((example_failure 5 ''http://blocked.test/'')\<lparr> details_statusCode := Some 404 \<rparr>)
        (example_service [''other.test''])
       = Inr (example_service [''other.test''])
   \<and> handleWebRequestErrors example_env 7 (example_failure 5 ''not a url'')
        (example_service [''other.test''])
       = Inr (example_service [''other.test''])"
proof -
  have h: "falsy_hostname (getHostname example_env ''not a url'')"
    by (simp add: falsy_hostname_def example_env_def example_getHostname_def)
  have t: "details_type ((example_failure 5 ''http://blocked.test/'')\<lparr> details_type := ''image'' \<rparr>)
       \<noteq> ''main_frame''" by simp
  have c: "details_error ((example_failure 5 ''http://blocked.test/'')\<lparr> details_statusCode := Some 404 \<rparr>) \<noteq> Some ''net::ERR_TUNNEL_CONNECTION_FAILED''
     \<and> details_statusCode ((example_failure 5 ''http://blocked.test/'')\<lparr> details_statusCode := Some 404 \<rparr>) \<noteq> Some 502"
    by (simp add: example_failure_def)
  have u: "falsy_hostname (getHostname example_env (details_url (example_failure 5 ''not a url'')))"
    by (simp add: falsy_hostname_def example_env_def example_getHostname_def example_failure_def)
  show ?thesis
    using h t c u
      handlers_ignore_unusable_input [where nonRoutableDomain = "''not a url''" and env = example_env
        and d = "(example_failure 5 ''http://blocked.test/'')\<lparr> details_type := ''image'' \<rparr>"
        and now = 7 and s = "example_service [''other.test'']"]
      handlers_ignore_unusable_input [where nonRoutableDomain = "[]" and env = example_env
        and d = "(example_failure 5 ''http://blocked.test/'')\<lparr> details_statusCode := Some 404 \<rparr>"
        and now = 7 and s = "example_service [''other.test'']"]
      handlers_ignore_unusable_input [where nonRoutableDomain = "[]" and env = example_env
        and d = "example_failure 5 ''not a url''"
        and now = 7 and s = "example_service [''other.test'']"]
    by blast
qed

text \<open>
  C10: when the transport-failure mapping holds an entry for a hostname whose tab
  identifier or url is falsy (absent, the tab 0, the empty url), a report for that
  hostname removes the entry from the transport-failure mapping, commits nothing and
  retries nothing (the list and the log are as before), and inserts the hostname into
  the report mapping with the current time.
\<close>

theorem report_consumes_failure_without_tab_or_url:
  assumes "nonRoutableDomain \<noteq> []"
    and "getHostname env nonRoutableDomain = Some hostname"
    and "hostname \<noteq> []"
    and "webRequestErrorHostnames s hostname = Some (Data entry)"
    and "tabId entry = None \<or> tabId entry = Some 0 \<or> url entry = None \<or> url entry = Some []"
  shows "handleNonRoutableDomains env now nonRoutableDomain s =
     Inr (s\<lparr> webRequestErrorHostnames := (webRequestErrorHostnames s)(hostname := None),
             nonRoutableHostnames := (nonRoutableHostnames s)
                (hostname \<mapsto> Data \<lparr> timeAdded = now, tabId = None, url = None \<rparr>) \<rparr>)"
  using assms
  by (auto simp: handleNonRoutableDomains_def falsy_hostname_def tab_and_url_def Let_def
        split: option.splits)

text \<open>
  The entry a failure on tab 0 leaves behind, met by a report 300 ms later.
\<close>

theorem report_consumes_failure_without_tab_or_url_witness:
  "''blocked.test'' \<noteq> []
   \<and> getHostname example_env ''blocked.test'' = Some ''blocked.test''
   \<and> tabId \<lparr> timeAdded = 0, tabId = Some 0, url = Some ''http://blocked.test/'' \<rparr> = Some 0
   \<and> handleNonRoutableDomains example_env 300 ''blocked.test''
        ((example_service [])\<lparr> webRequestErrorHostnames :=
            [''blocked.test'' \<mapsto>
               Data \<lparr> timeAdded = 0, tabId = Some 0, url = Some ''http://blocked.test/'' \<rparr>] \<rparr>)
       = Inr ((example_service [])\<lparr> nonRoutableHostnames :=
            [''blocked.test'' \<mapsto> Data \<lparr> timeAdded = 300, tabId = None, url = None \<rparr>] \<rparr>)"
proof -
  have g: "getHostname example_env ''blocked.test'' = Some ''blocked.test''"
    by (simp add: example_env_def example_getHostname_def)
  show ?thesis
    using g report_consumes_failure_without_tab_or_url
      [where nonRoutableDomain = "''blocked.test''" and env = example_env
         and hostname = "''blocked.test''"
         and entry = "\<lparr> timeAdded = 0, tabId = Some 0, url = Some ''http://blocked.test/'' \<rparr>"
         and now = 300
         and s = "(example_service [])\<lparr> webRequestErrorHostnames :=
            [''blocked.test'' \<mapsto>
               Data \<lparr> timeAdded = 0, tabId = Some 0, url = Some ''http://blocked.test/'' \<rparr>] \<rparr>"]
    by (simp add: example_service_def)
qed

end
